theory Spec2Isabelle
  imports Complex_Main "HOL-Library.Word"
begin

unbundle bit_operations_syntax

section \<open>Bytes, Python outcomes and symbolic floats\<close>

text \<open>
  A Python \<^verbatim>\<open>bytes\<close>/\<^verbatim>\<open>bytearray\<close> value is a list of 8-bit words. Reading a byte
  gives a Python int in 0..255, which is \<open>unat\<close> of the word.
\<close>

type_synonym byte = "8 word"
type_synonym bytes = "byte list"

text \<open>The exceptions the modelled code can raise.\<close>

datatype py_exception =
    StructError
  | SerialException
  | IndexError
  | ValueError
  | AttributeError

text \<open>A call either returns a value or raises.\<close>

datatype 'a outcome = Returns 'a | Raises py_exception

text \<open>
  Floating point values are kept symbolic. \<open>F32 a b c d\<close> is the Python float that
  \<^verbatim>\<open>struct.unpack('<f', ...)\<close> reads from the four bytes \<open>a b c d\<close> (little-endian
  binary32), and \<open>DivE6 x\<close> is the value of \<^verbatim>\<open>x / 1e6\<close>.
\<close>

datatype pyfloat = F32 byte byte byte byte | DivE6 pyfloat

text \<open>Python's slice \<^verbatim>\<open>xs[i:j]\<close> for \<open>0 \<le> i\<close>, \<open>0 \<le> j\<close>: it never raises.\<close>

definition slice :: "nat \<Rightarrow> nat \<Rightarrow> 'a list \<Rightarrow> 'a list" where
  "slice i j xs = take (j - i) (drop i xs)"

text \<open>\<^verbatim>\<open>struct.unpack('<H', s)[0]\<close>: \<open>s\<close> must hold exactly two bytes.\<close>

fun unpack_H :: "bytes \<Rightarrow> nat outcome" where
  "unpack_H [lo, hi] = Returns (unat lo + 256 * unat hi)"
| "unpack_H _ = Raises StructError"

text \<open>\<^verbatim>\<open>struct.unpack(f'<{n}f', data)\<close>: \<open>data\<close> must hold exactly \<open>4 * n\<close> bytes.\<close>

fun floats_of :: "bytes \<Rightarrow> pyfloat list" where
  "floats_of (a # b # c # d # rest) = F32 a b c d # floats_of rest"
| "floats_of _ = []"

definition unpack_f :: "nat \<Rightarrow> bytes \<Rightarrow> pyfloat list outcome" where
  "unpack_f n data = (if length data = 4 * n then Returns (floats_of data) else Raises StructError)"

section \<open>Checksum (both variants)\<close>

text \<open>
  \<^verbatim>\<open>fletcher_checksum\<close>: the loop body is
  \<^verbatim>\<open>CK_A = (CK_A + byte) % 256; CK_B = (CK_B + CK_A) % 256\<close>.
\<close>

fun fletcher_loop :: "nat \<Rightarrow> nat \<Rightarrow> bytes \<Rightarrow> nat \<times> nat" where
  "fletcher_loop ck_a ck_b [] = (ck_a, ck_b)"
| "fletcher_loop ck_a ck_b (x # xs) =
     (let ck_a' = (ck_a + unat x) mod 256;
          ck_b' = (ck_b + ck_a') mod 256
      in fletcher_loop ck_a' ck_b' xs)"

definition fletcher_checksum :: "bytes \<Rightarrow> nat \<times> nat" where
  "fletcher_checksum data = fletcher_loop 0 0 data"

section \<open>arduino\_spectr.py: frame parser\<close>

text \<open>
  \<^verbatim>\<open>parse_response(buffer)\<close> returns \<^verbatim>\<open>(None, None)\<close> on every failure path, after
  logging a message that names the path. \<open>Inl f\<close> stands for the return value
  \<^verbatim>\<open>(None, None)\<close>, \<open>f\<close> for the message logged; \<open>Inr (mags, freqs)\<close> is the pair of
  arrays.
\<close>

datatype parse_failure =
    BufferTooShort
  | InvalidStartByte
  | IncorrectCommandCode
  | IncompletePacket
  | CrcMismatch
  | IncorrectNumberOfFloats
  | ErrorParsingResponse py_exception

type_synonym spectrum = "pyfloat list \<times> pyfloat list"

definition GET_SPECTRUM_FLOAT :: byte where
  "GET_SPECTRUM_FLOAT = 0xC2"

text \<open>Line 49: the two bytes after the payload, read as little-endian u16.\<close>

definition received_crc :: "bytes \<Rightarrow> nat \<Rightarrow> nat outcome" where
  "received_crc buffer payload_len = unpack_H (slice (4 + payload_len) (6 + payload_len) buffer)"

text \<open>Lines 50-51: \<^verbatim>\<open>(calc_crc2 << 8) | calc_crc1\<close> over \<^verbatim>\<open>buffer[:4 + payload_len]\<close>.\<close>

definition calculated_crc :: "bytes \<Rightarrow> nat \<Rightarrow> nat" where
  "calculated_crc buffer payload_len =
     (case fletcher_checksum (take (4 + payload_len) buffer) of
        (calc_crc1, calc_crc2) \<Rightarrow> (push_bit 8 calc_crc2) OR calc_crc1)"

text \<open>Lines 57-71 of \<^verbatim>\<open>parse_response\<close>: the payload \<open>data\<close> to the two arrays.\<close>

definition decode_floats :: "bytes \<Rightarrow> (parse_failure + spectrum) outcome" where
  "decode_floats data =
     (let num_floats = length data div 4 in
      if num_floats mod 2 \<noteq> 0 then Returns (Inl IncorrectNumberOfFloats)
      else case unpack_f num_floats data of
             Raises e \<Rightarrow> Raises e
           | Returns float_data \<Rightarrow>
               Returns (Inr (take (num_floats div 2) float_data,
                             map DivE6 (drop (num_floats div 2) float_data))))"

text \<open>The body of the \<^verbatim>\<open>try\<close> block of \<^verbatim>\<open>parse_response\<close>, lines 30-71.\<close>

definition parse_response_try :: "bytes \<Rightarrow> (parse_failure + spectrum) outcome" where
  "parse_response_try buffer =
     (if length buffer < 6 then Returns (Inl BufferTooShort)
      else if buffer ! 0 \<noteq> 0xBB then Returns (Inl InvalidStartByte)
      else if buffer ! 1 \<noteq> GET_SPECTRUM_FLOAT then Returns (Inl IncorrectCommandCode)
      else case unpack_H (slice 2 4 buffer) of
             Raises e \<Rightarrow> Raises e
           | Returns payload_len \<Rightarrow>
               if length buffer < 6 + payload_len then Returns (Inl IncompletePacket)
               else case received_crc buffer payload_len of
                      Raises e \<Rightarrow> Raises e
                    | Returns rcrc \<Rightarrow>
                        if rcrc \<noteq> calculated_crc buffer payload_len
                        then Returns (Inl CrcMismatch)
                        else decode_floats (slice 4 (4 + payload_len) buffer))"

text \<open>
  \<^verbatim>\<open>parse_response\<close> with its handler \<^verbatim>\<open>except Exception\<close>, lines 72-74: whatever the
  body raises is logged and turned into \<^verbatim>\<open>(None, None)\<close>.
\<close>

definition parse_response :: "bytes \<Rightarrow> (parse_failure + spectrum) outcome" where
  "parse_response buffer =
     (case parse_response_try buffer of
        Raises e \<Rightarrow> Returns (Inl (ErrorParsingResponse e))
      | Returns r \<Rightarrow> Returns r)"

section \<open>Query encoder\<close>

text \<open>Little-endian bytes of a natural number, \<open>n\<close> of them.\<close>

fun le_bytes :: "nat \<Rightarrow> nat \<Rightarrow> bytes" where
  "le_bytes 0 v = []"
| "le_bytes (Suc n) v = of_nat (v mod 256) # le_bytes n (v div 256)"

text \<open>
  One field of \<^verbatim>\<open>struct.pack\<close>: a Python int packed in \<open>n\<close> little-endian bytes
  (\<open>B\<close>: 1, \<open>H\<close>: 2, \<open>Q\<close>: 8). A value outside \<open>0 .. 256 ^ n - 1\<close> raises
  \<^verbatim>\<open>struct.error\<close>.
\<close>

definition pack_uint :: "nat \<Rightarrow> int \<Rightarrow> bytes outcome" where
  "pack_uint n v = (if 0 \<le> v \<and> v < 256 ^ n then Returns (le_bytes n (nat v)) else Raises StructError)"

fun pack_fields :: "(nat \<times> int) list \<Rightarrow> bytes outcome" where
  "pack_fields [] = Returns []"
| "pack_fields ((n, v) # fs) =
     (case pack_uint n v of
        Raises e \<Rightarrow> Raises e
      | Returns bs \<Rightarrow>
          (case pack_fields fs of
             Raises e \<Rightarrow> Raises e
           | Returns rest \<Rightarrow> Returns (bs @ rest)))"

text \<open>
  arduino\_spectr.py \<^verbatim>\<open>get_spectrum\<close>, lines 77-87: the command written to the port,
  \<^verbatim>\<open>struct.pack('<BBHQQBBB', 0xBB, 0xC2, 19, int(start_freq), int(stop_freq), 2, 3, 0)\<close>
  followed by \<^verbatim>\<open>struct.pack('<BB', crc1, crc2)\<close>. The arguments are the values of
  \<^verbatim>\<open>int(start_freq)\<close> and \<^verbatim>\<open>int(stop_freq)\<close>.
\<close>

definition get_spectrum :: "int \<Rightarrow> int \<Rightarrow> bytes outcome" where
  "get_spectrum start_freq stop_freq =
     (case pack_fields [(1, 0xBB), (1, int (unat GET_SPECTRUM_FLOAT)), (2, 19),
                        (8, start_freq), (8, stop_freq), (1, 2), (1, 3), (1, 0)] of
        Raises e \<Rightarrow> Raises e
      | Returns command \<Rightarrow>
          (case fletcher_checksum command of
             (crc1, crc2) \<Rightarrow>
               (case pack_fields [(1, int crc1), (1, int crc2)] of
                  Raises e \<Rightarrow> Raises e
                | Returns tail \<Rightarrow> Returns (command @ tail))))"

text \<open>
  ex2\_Test.py \<^verbatim>\<open>get_spectrum_float\<close>, lines 63-73: the command it writes, with
  \<^verbatim>\<open>rfin\<close>, \<^verbatim>\<open>bw\<close> and \<^verbatim>\<open>speed\<close> as arguments (defaults 2, 3, 0).
\<close>

definition get_spectrum_float_command :: "int \<Rightarrow> int \<Rightarrow> int \<Rightarrow> int \<Rightarrow> int \<Rightarrow> bytes outcome" where
  "get_spectrum_float_command start_freq stop_freq rfin bw speed =
     (case pack_fields [(1, 0xBB), (1, int (unat GET_SPECTRUM_FLOAT)), (2, 19),
                        (8, start_freq), (8, stop_freq), (1, rfin), (1, bw), (1, speed)] of
        Raises e \<Rightarrow> Raises e
      | Returns command \<Rightarrow>
          (case fletcher_checksum command of
             (crc1, crc2) \<Rightarrow>
               (case pack_fields [(1, int crc1), (1, int crc2)] of
                  Raises e \<Rightarrow> Raises e
                | Returns tail \<Rightarrow> Returns (command @ tail))))"



section \<open>arduino\_spectr.py: stream reassembly in \<^verbatim>\<open>SpectrumWorker.run\<close>\<close>

text \<open>
  The inner \<^verbatim>\<open>while True\<close> loop, lines 205-237, on \<^verbatim>\<open>self.buffer\<close>. The result is the
  buffer left when the loop breaks and the spectra handed to \<^verbatim>\<open>data_updated.emit\<close>, in
  order. The peak alert and the LED command of lines 221-235 read the decoded arrays
  only; they touch neither the buffer nor the emitted spectrum and are left out.
\<close>

definition emit :: "spectrum \<Rightarrow> (bytes \<times> spectrum list) outcome \<Rightarrow> (bytes \<times> spectrum list) outcome" where
  "emit f r = (case r of Raises e \<Rightarrow> Raises e | Returns (b, fs) \<Rightarrow> Returns (b, f # fs))"

function reassemble :: "bytes \<Rightarrow> (bytes \<times> spectrum list) outcome" where
  "reassemble buffer =
     (if 0xBB \<notin> set buffer then Returns (buffer, [])
      else let buffer1 = dropWhile (\<lambda>b. b \<noteq> 0xBB) buffer in
        if length buffer1 < 4 then Returns (buffer1, [])
        else case unpack_H (slice 2 4 buffer1) of
               Raises e \<Rightarrow> Raises e
             | Returns payload_len \<Rightarrow>
                 let packet_len = 6 + payload_len in
                 if length buffer1 < packet_len then Returns (buffer1, [])
                 else let packet = take packet_len buffer1;
                          buffer2 = drop packet_len buffer1
                      in case parse_response packet of
                           Raises e \<Rightarrow> Raises e
                         | Returns (Inl f) \<Rightarrow> reassemble buffer2
                         | Returns (Inr sp) \<Rightarrow> emit sp (reassemble buffer2))"
  by pat_completeness auto
termination
proof (relation "measure length")
  show "wf (measure length)" by simp
next
  fix buffer :: bytes and buffer1 payload_len packet_len packet buffer2
  assume "buffer1 = dropWhile (\<lambda>b. b \<noteq> 0xBB) buffer"
    and "packet_len = 6 + payload_len"
    and "\<not> length buffer1 < packet_len"
    and "buffer2 = drop packet_len buffer1"
  moreover have "length (dropWhile (\<lambda>b. b \<noteq> 0xBB) buffer) \<le> length buffer"
    by (rule length_dropWhile_le)
  ultimately show "(buffer2, buffer) \<in> measure length"
    by simp
next
  fix buffer :: bytes and buffer1 payload_len packet_len packet buffer2
  assume "buffer1 = dropWhile (\<lambda>b. b \<noteq> 0xBB) buffer"
    and "packet_len = 6 + payload_len"
    and "\<not> length buffer1 < packet_len"
    and "buffer2 = drop packet_len buffer1"
  moreover have "length (dropWhile (\<lambda>b. b \<noteq> 0xBB) buffer) \<le> length buffer"
    by (rule length_dropWhile_le)
  ultimately show "(buffer2, buffer) \<in> measure length"
    by simp
qed

declare reassemble.simps [simp del]

text \<open>
  Lines 201-205: one read of the port. \<^verbatim>\<open>if data:\<close> skips the loop when the read
  timed out with nothing; otherwise the bytes are appended and the loop runs.
\<close>

definition ingest :: "bytes \<Rightarrow> bytes \<Rightarrow> (bytes \<times> spectrum list) outcome" where
  "ingest buffer data = (if data = [] then Returns (buffer, []) else reassemble (buffer @ data))"

section \<open>arduino\_spectr.py: the session loop of \<^verbatim>\<open>SpectrumWorker.run\<close>\<close>

text \<open>
  Lines 193-249. One element of the list below is what the environment does during one
  pass of \<^verbatim>\<open>while self.running\<close>: whether \<^verbatim>\<open>self.running\<close> is still true at the test
  (\<^verbatim>\<open>closeEvent\<close> clears it), whether \<^verbatim>\<open>self.ser.is_open\<close> holds, whether the write of
  \<^verbatim>\<open>get_spectrum(self.ser)\<close> on line 199 raises, and what \<^verbatim>\<open>self.ser.read(1024)\<close> does.
  The reconnect loop of lines 197-198 is taken to return (it sleeps and retries until
  \<^verbatim>\<open>connect_to_device\<close> succeeds).
\<close>

datatype read_result = ReadData bytes | ReadRaises py_exception

record iteration =
  it_running :: bool
  it_port_open :: bool
  it_write_error :: "py_exception option"
  it_read :: read_result

record worker =
  w_running :: bool
  w_buffer :: bytes
  w_emitted :: "spectrum list"
  w_reconnects :: nat
  w_ports_closed :: bool

text \<open>How the loop was left: by the stop flag, or through \<^verbatim>\<open>except Exception\<close>.\<close>

datatype loop_exit = StopRequested | Crashed py_exception

text \<open>Lines 238-249: the handler clears the buffer; \<^verbatim>\<open>finally\<close> closes both ports.\<close>

definition on_exception :: "worker \<Rightarrow> py_exception \<Rightarrow> worker \<times> loop_exit option" where
  "on_exception w e =
     (w\<lparr>w_buffer := [], w_running := False, w_ports_closed := True\<rparr>, Some (Crashed e))"

definition on_stop :: "worker \<Rightarrow> worker \<times> loop_exit option" where
  "on_stop w = (w\<lparr>w_running := False, w_ports_closed := True\<rparr>, Some StopRequested)"

text \<open>
  The result \<open>(w, None)\<close> means that the listed passes are over and the loop is still
  running.
\<close>

fun run_loop :: "worker \<Rightarrow> iteration list \<Rightarrow> worker \<times> loop_exit option" where
  "run_loop w [] = (w, None)"
| "run_loop w (it # its) =
     (if \<not> it_running it then on_stop w
      else let w1 = (if it_port_open it then w else w\<lparr>w_reconnects := w_reconnects w + 1\<rparr>) in
        case (if it_port_open it then None else it_write_error it) of
          Some e \<Rightarrow> on_exception w1 e
        | None \<Rightarrow>
            (case it_read it of
               ReadRaises e \<Rightarrow> on_exception w1 e
             | ReadData data \<Rightarrow>
                 (case ingest (w_buffer w1) data of
                    Raises e \<Rightarrow> on_exception w1 e
                  | Returns (b, fs) \<Rightarrow>
                      run_loop (w1\<lparr>w_buffer := b, w_emitted := w_emitted w1 @ fs\<rparr>) its)))"

section \<open>ex2\_Test.py: frame parser on the serial port\<close>

text \<open>
  The port as \<^verbatim>\<open>parse_response(serial_conn)\<close> sees it. \<open>Pending rx\<close>: the bytes \<open>rx\<close>
  arrive before the read timeout and nothing after them, so \<^verbatim>\<open>read(n)\<close> returns the next
  \<open>n\<close> bytes or fewer. \<open>Faulted\<close>: \<^verbatim>\<open>read\<close> raises \<^verbatim>\<open>serial.SerialException\<close>.
\<close>

datatype serial_conn = Pending bytes | Faulted

fun serial_read :: "serial_conn \<Rightarrow> nat \<Rightarrow> (bytes \<times> serial_conn) outcome" where
  "serial_read (Pending rx) n = Returns (take n rx, Pending (drop n rx))"
| "serial_read Faulted n = Raises SerialException"

text \<open>
  Lines 41-58, the body of the \<^verbatim>\<open>try\<close>. \<open>None\<close> is the return value \<^verbatim>\<open>(None, None)\<close>.
  The port after the call is returned with the result.
\<close>

definition parse_response_ex2_try :: "serial_conn \<Rightarrow> (spectrum option \<times> serial_conn) outcome" where
  "parse_response_ex2_try conn =
     (case serial_read conn 4 of
        Raises e \<Rightarrow> Raises e
      | Returns (header, conn1) \<Rightarrow>
          if length header < 4 then Returns (None, conn1)
          else case unpack_H (slice 2 4 header) of
            Raises e \<Rightarrow> Raises e
          | Returns payload_len \<Rightarrow>
              (case serial_read conn1 payload_len of
                 Raises e \<Rightarrow> Raises e
               | Returns (response_data, conn2) \<Rightarrow>
                   if length response_data < payload_len then Returns (None, conn2)
                   else case serial_read conn2 2 of
                     Raises e \<Rightarrow> Raises e
                   | Returns (received, conn3) \<Rightarrow>
                       (case fletcher_checksum (header @ response_data) of
                          (calc_crc1, calc_crc2) \<Rightarrow>
                            if received \<noteq> [of_nat calc_crc1, of_nat calc_crc2]
                            then Returns (None, conn3)
                            else case unpack_f (payload_len div 4) response_data of
                              Raises e \<Rightarrow> Raises e
                            | Returns float_data \<Rightarrow>
                                Returns (Some (take (length float_data div 2) float_data,
                                               map DivE6 (drop (length float_data div 2) float_data)),
                                         conn3))))"

text \<open>Lines 59-60: only \<^verbatim>\<open>serial.SerialException\<close> is handled; anything else propagates.\<close>

definition parse_response_ex2 :: "serial_conn \<Rightarrow> (spectrum option \<times> serial_conn) outcome" where
  "parse_response_ex2 conn =
     (case parse_response_ex2_try conn of
        Raises e \<Rightarrow> if e = SerialException then Returns (None, conn) else Raises e
      | Returns r \<Rightarrow> Returns r)"

section \<open>ex2\_Test.py: threshold detection in \<^verbatim>\<open>background_processing\<close>\<close>

text \<open>
  Amplitudes are Python floats in the source. In the detection and calibration code
  they are modelled as real numbers: comparisons, maxima and sorting are exact on floats,
  while the rounding error of \<open>+\<close>, \<open>*\<close> and \<open>/\<close> is not modelled.

  The entries at index \<open>i\<close> of \<^verbatim>\<open>ema_values\<close>, \<^verbatim>\<open>stability_counter\<close> and \<^verbatim>\<open>alert_flags\<close>
  (key \<^verbatim>\<open>'high'\<close>) are the detection state of range \<open>i\<close>.
\<close>

record range_state =
  ema_value :: "real option"
  stability :: nat
  alert_high :: bool

definition ema_alpha :: real where
  "ema_alpha = 1 / 10"

definition hysteresis_threshold :: real where
  "hysteresis_threshold = 1 / 2"

definition stability_duration :: nat where
  "stability_duration = 3"

text \<open>\<^verbatim>\<open>update_ema\<close>, lines 313-318: the new value of \<^verbatim>\<open>ema_values[index]\<close>.\<close>

definition update_ema :: "real option \<Rightarrow> real \<Rightarrow> real" where
  "update_ema ema current_value =
     (case ema of
        None \<Rightarrow> current_value
      | Some e \<Rightarrow> ema_alpha * current_value + (1 - ema_alpha) * e)"

text \<open>Which branch of lines 285-311 a cycle took.\<close>

datatype branch = NoData | Exceeded | Dropped | Held

text \<open>
  One pass of the loop body for one range, lines 284-311. The argument is \<open>None\<close> when
  \<^verbatim>\<open>get_spectrum_float\<close> gave \<^verbatim>\<open>mags is None\<close>, and \<open>Some v\<close> with
  \<open>v = filtered_mags.max()\<close> otherwise. The result is the new state, the branch taken and
  whether \<^verbatim>\<open>show_alert\<close> was called.
\<close>

definition range_cycle :: "range_state \<Rightarrow> real option \<Rightarrow> range_state \<times> branch \<times> bool" where
  "range_cycle s q =
     (case q of
        None \<Rightarrow> (s, NoData, False)
      | Some v \<Rightarrow>
          let ema = update_ema (ema_value s) v;
              s1 = s\<lparr>ema_value := Some ema\<rparr>;
              threshold_high = ema + 1;
              threshold_low = threshold_high - hysteresis_threshold
          in if v > threshold_high then
               let s2 = s1\<lparr>stability := stability s1 + 1\<rparr> in
               if stability s2 \<ge> stability_duration \<and> \<not> alert_high s2
               then (s2\<lparr>alert_high := True\<rparr>, Exceeded, True)
               else (s2, Exceeded, False)
             else if v \<le> threshold_low then
               (s1\<lparr>alert_high := False, stability := 0\<rparr>, Dropped, False)
             else (s1, Held, False))"

text \<open>
  \<^verbatim>\<open>update_spectrum\<close>, lines 214-280, runs before every pass of
  \<^verbatim>\<open>background_processing\<close> (line 278). When its own query of the display range returned
  a spectrum, line 235 calls \<^verbatim>\<open>update_ema(filtered_mags.max(), 0)\<close>, which writes
  \<^verbatim>\<open>ema_values[0]\<close>. The argument is \<open>Some x\<close> with that amplitude for range 0, and
  \<open>None\<close> for every other range and when the display query gave nothing.
\<close>

definition display_update :: "range_state \<Rightarrow> real option \<Rightarrow> range_state" where
  "display_update s d =
     (case d of
        None \<Rightarrow> s
      | Some x \<Rightarrow> s\<lparr>ema_value := Some (update_ema (ema_value s) x)\<rparr>)"

text \<open>
  One polling cycle as one range sees it: the display update of \<^verbatim>\<open>update_spectrum\<close>,
  then the pass of \<^verbatim>\<open>background_processing\<close>. The input is the pair of the display
  amplitude and the working amplitude of the range.
\<close>

definition poll :: "range_state \<Rightarrow> real option \<times> real option \<Rightarrow> range_state \<times> branch \<times> bool" where
  "poll s c = range_cycle (display_update s (fst c)) (snd c)"

text \<open>A sequence of polling cycles of one range: the branch and the alert of each.\<close>

fun cycles :: "range_state \<Rightarrow> (real option \<times> real option) list \<Rightarrow> (branch \<times> bool) list" where
  "cycles s [] = []"
| "cycles s (c # cs) =
     (case poll s c of (s', b, fired) \<Rightarrow> (b, fired) # cycles s' cs)"

fun final_state :: "range_state \<Rightarrow> (real option \<times> real option) list \<Rightarrow> range_state" where
  "final_state s [] = s"
| "final_state s (c # cs) = final_state (fst (poll s c)) cs"

definition alerts :: "(branch \<times> bool) list \<Rightarrow> nat" where
  "alerts tr = length (filter snd tr)"

definition count_branch :: "branch \<Rightarrow> (branch \<times> bool) list \<Rightarrow> nat" where
  "count_branch b tr = length (filter (\<lambda>c. fst c = b) tr)"

section \<open>ex2\_Test.py: calibration\<close>

text \<open>What one call of \<^verbatim>\<open>get_spectrum_float\<close> gives to the calibration loops.\<close>

datatype query_result = NoSpectrum | Spectrum "real list" | QueryRaises py_exception

text \<open>
  The inner loops of lines 188-192 and 406-410 over the results of the queries:
  \<^verbatim>\<open>if mags is not None: amplitudes.append(mags.max())\<close>. \<^verbatim>\<open>max\<close> of an empty array raises
  \<^verbatim>\<open>ValueError\<close>.
\<close>

fun collect_max :: "query_result list \<Rightarrow> real list outcome" where
  "collect_max [] = Returns []"
| "collect_max (NoSpectrum # rs) = collect_max rs"
| "collect_max (QueryRaises e # rs) = Raises e"
| "collect_max (Spectrum mags # rs) =
     (if mags = [] then Raises ValueError
      else case collect_max rs of
             Raises e \<Rightarrow> Raises e
           | Returns amplitudes \<Rightarrow> Returns (Max (set mags) # amplitudes))"

text \<open>Python's \<^verbatim>\<open>max\<close> of a non-empty list.\<close>

definition py_max :: "real list \<Rightarrow> real" where
  "py_max xs = Max (set xs)"

text \<open>\<^verbatim>\<open>np.median\<close> of a non-empty list.\<close>

definition np_median :: "real list \<Rightarrow> real" where
  "np_median xs =
     (let s = sort xs; n = length s
      in if odd n then s ! (n div 2) else (s ! (n div 2 - 1) + s ! (n div 2)) / 2)"

text \<open>\<^verbatim>\<open>round(x, 1)\<close>: to the nearest multiple of one tenth, ties to the even one.\<close>

definition rint :: "real \<Rightarrow> int" where
  "rint x =
     (let f = \<lfloor>x\<rfloor>; d = x - of_int f
      in if d < 1 / 2 then f else if d > 1 / 2 then f + 1 else if even f then f else f + 1)"

definition py_round1 :: "real \<Rightarrow> real" where
  "py_round1 x = of_int (rint (x * 10)) / 10"

type_synonym scan_range = "int \<times> int \<times> real option"

text \<open>
  The body of the loop over the ranges, lines 188-199 and 406-416, with the reducer
  (\<^verbatim>\<open>np.median\<close> or \<^verbatim>\<open>max\<close>) as an argument.
\<close>

definition calibrate_range :: "(real list \<Rightarrow> real) \<Rightarrow> query_result list \<Rightarrow> scan_range \<Rightarrow> scan_range outcome" where
  "calibrate_range reducer results r =
     (case r of (start, stop, old) \<Rightarrow>
        (case collect_max results of
           Raises e \<Rightarrow> Raises e
         | Returns amplitudes \<Rightarrow>
             if amplitudes \<noteq> []
             then Returns (start, stop, Some (py_round1 (reducer amplitudes + 1)))
             else Returns (start, stop, old)))"

text \<open>
  \<^verbatim>\<open>for i, (start, stop, _) in enumerate(self.scan_ranges)\<close> from index \<open>i\<close> on;
  \<open>q i k\<close> is the result of query number \<open>k\<close> for range \<open>i\<close>, \<open>n\<close> the number of queries.
\<close>

fun calibrate_from ::
  "(real list \<Rightarrow> real) \<Rightarrow> nat \<Rightarrow> (nat \<Rightarrow> nat \<Rightarrow> query_result) \<Rightarrow> nat \<Rightarrow> scan_range list \<Rightarrow> scan_range list outcome" where
  "calibrate_from reducer n q i [] = Returns []"
| "calibrate_from reducer n q i (r # rs) =
     (case calibrate_range reducer (map (q i) [0..<n]) r of
        Raises e \<Rightarrow> Raises e
      | Returns r' \<Rightarrow>
          (case calibrate_from reducer n q (Suc i) rs of
             Raises e \<Rightarrow> Raises e
           | Returns rs' \<Rightarrow> Returns (r' # rs')))"

datatype log_entry = CalibrationImpossible

text \<open>
  \<^verbatim>\<open>auto_calibrate_thresholds\<close>, lines 185-201. \<open>conn\<close> is the truth value of
  \<^verbatim>\<open>self.serial_conn\<close>. The result is the new \<^verbatim>\<open>scan_ranges\<close> and what \<^verbatim>\<open>logging.error\<close>
  wrote (the info lines of line 199 are left out).
\<close>

definition auto_calibrate_thresholds ::
  "bool \<Rightarrow> (nat \<Rightarrow> nat \<Rightarrow> query_result) \<Rightarrow> scan_range list \<Rightarrow> (scan_range list \<times> log_entry list) outcome" where
  "auto_calibrate_thresholds conn q ranges =
     (if conn then
        (case calibrate_from np_median 500 q 0 ranges of
           Raises e \<Rightarrow> Raises e
         | Returns rs \<Rightarrow> Returns (rs, []))
      else Returns (ranges, [CalibrationImpossible]))"

text \<open>
  One pass of the \<^verbatim>\<open>while\<close> loop of \<^verbatim>\<open>calibration_process\<close>, lines 405-416. There is no
  test of \<^verbatim>\<open>self.serial_conn\<close>: with no port, \<^verbatim>\<open>serial_conn.write\<close> inside
  \<^verbatim>\<open>get_spectrum_float\<close> raises \<^verbatim>\<open>AttributeError\<close>, which nothing handles.
\<close>

definition calibration_pass ::
  "bool \<Rightarrow> (nat \<Rightarrow> nat \<Rightarrow> query_result) \<Rightarrow> scan_range list \<Rightarrow> scan_range list outcome" where
  "calibration_pass conn q ranges =
     calibrate_from py_max 10 (\<lambda>i k. if conn then q i k else QueryRaises AttributeError) 0 ranges"

text \<open>
  \<^verbatim>\<open>calibration_process\<close>: the passes made before the two minutes are over, one list
  element for each.
\<close>

fun calibration_process ::
  "bool \<Rightarrow> (nat \<Rightarrow> nat \<Rightarrow> query_result) list \<Rightarrow> scan_range list \<Rightarrow> scan_range list outcome" where
  "calibration_process conn [] ranges = Returns ranges"
| "calibration_process conn (q # qs) ranges =
     (case calibration_pass conn q ranges of
        Raises e \<Rightarrow> Raises e
      | Returns ranges' \<Rightarrow> calibration_process conn qs ranges')"

text \<open>The per-query maxima that a list of query results contributes.\<close>

definition query_max :: "query_result \<Rightarrow> real option" where
  "query_max r = (case r of Spectrum mags \<Rightarrow> Some (Max (set mags)) | _ \<Rightarrow> None)"

definition usable :: "query_result \<Rightarrow> bool" where
  "usable r = (case r of NoSpectrum \<Rightarrow> True | Spectrum mags \<Rightarrow> mags \<noteq> [] | QueryRaises e \<Rightarrow> False)"

section \<open>ex2\_Test.py: the range registry\<close>

record registry =
  scan_ranges :: "scan_range list"
  alert_flags :: "bool list"
  ema_values :: "real option list"
  stability_counter :: "nat list"

text \<open>\<^verbatim>\<open>__init__\<close>, lines 91-97 and 142-146.\<close>

definition initial_registry :: registry where
  "initial_registry =
     \<lparr>scan_ranges = [(400000000, 500000000, None)],
      alert_flags = [False],
      ema_values = [None],
      stability_counter = [0]\<rparr>"

text \<open>\<^verbatim>\<open>int(x)\<close> of a float: truncation towards zero.\<close>

definition py_int :: "real \<Rightarrow> int" where
  "py_int x = (if 0 \<le> x then \<lfloor>x\<rfloor> else \<lceil>x\<rceil>)"

text \<open>\<^verbatim>\<open>del xs[i]\<close> for \<open>i < len(xs)\<close>.\<close>

definition del_at :: "nat \<Rightarrow> 'a list \<Rightarrow> 'a list" where
  "del_at i xs = take i xs @ drop (Suc i) xs"

text \<open>
  \<^verbatim>\<open>add_range\<close>, lines 341-352. The three arguments are the answers of
  \<^verbatim>\<open>simpledialog.askfloat\<close>, \<open>None\<close> when the dialog was cancelled.
\<close>

definition add_range :: "registry \<Rightarrow> real option \<Rightarrow> real option \<Rightarrow> real option \<Rightarrow> registry" where
  "add_range reg start_freq stop_freq threshold =
     (case (start_freq, stop_freq, threshold) of
        (Some a, Some b, Some t) \<Rightarrow>
          reg\<lparr>scan_ranges := scan_ranges reg @ [(py_int (a * 1000000), py_int (b * 1000000), Some t)],
              alert_flags := alert_flags reg @ [False],
              ema_values := ema_values reg @ [None],
              stability_counter := stability_counter reg @ [0]\<rparr>
      | _ \<Rightarrow> reg)"

text \<open>
  \<^verbatim>\<open>edit_range\<close>, lines 356-370. \<open>selected\<close> is \<^verbatim>\<open>curselection()\<close>. Reading
  \<^verbatim>\<open>self.scan_ranges[index]\<close> raises \<^verbatim>\<open>IndexError\<close> when the index is out of range. The
  result is the registry after the call and the exception, if one was raised.
\<close>

definition edit_range ::
  "registry \<Rightarrow> nat list \<Rightarrow> real option \<Rightarrow> real option \<Rightarrow> real option \<Rightarrow> registry \<times> py_exception option" where
  "edit_range reg selected start_freq stop_freq threshold =
     (if selected = [] then (reg, None)
      else let index = hd selected in
        if \<not> index < length (scan_ranges reg) then (reg, Some IndexError)
        else case (start_freq, stop_freq, threshold) of
               (Some a, Some b, Some t) \<Rightarrow>
                 (reg\<lparr>scan_ranges :=
                        (scan_ranges reg)[index := (py_int (a * 1000000), py_int (b * 1000000), Some t)]\<rparr>,
                  None)
             | _ \<Rightarrow> (reg, None))"

text \<open>
  \<^verbatim>\<open>delete_range\<close>, lines 374-388: four \<^verbatim>\<open>del\<close> statements in a row, each of which
  raises \<^verbatim>\<open>IndexError\<close> on its own list when the index is out of range.
\<close>

definition delete_range :: "registry \<Rightarrow> nat list \<Rightarrow> registry \<times> py_exception option" where
  "delete_range reg selected =
     (if selected = [] then (reg, None)
      else let index = hd selected in
        if \<not> index < length (scan_ranges reg) then (reg, Some IndexError)
        else let r1 = reg\<lparr>scan_ranges := del_at index (scan_ranges reg)\<rparr> in
          if \<not> index < length (alert_flags r1) then (r1, Some IndexError)
          else let r2 = r1\<lparr>alert_flags := del_at index (alert_flags r1)\<rparr> in
            if \<not> index < length (ema_values r2) then (r2, Some IndexError)
            else let r3 = r2\<lparr>ema_values := del_at index (ema_values r2)\<rparr> in
              if \<not> index < length (stability_counter r3) then (r3, Some IndexError)
              else (r3\<lparr>stability_counter := del_at index (stability_counter r3)\<rparr>, None))"

text \<open>The four per-range lists have one entry for each range.\<close>

definition lockstep :: "registry \<Rightarrow> bool" where
  "lockstep reg \<longleftrightarrow>
     length (alert_flags reg) = length (scan_ranges reg) \<and>
     length (ema_values reg) = length (scan_ranges reg) \<and>
     length (stability_counter reg) = length (scan_ranges reg)"

section \<open>Frames used as concrete inputs\<close>

text \<open>
  A well-formed response with two floats (1.0 and 2.0 as binary32) and its checksum
  \<open>(0x84, 0xE5)\<close>; the same frame with the last checksum byte changed; and the same frame
  with one bit of the length byte flipped (8 to 10), as a line error would leave it.
\<close>

definition frame_ok :: bytes where
  "frame_ok = [0xBB, 0xC2, 8, 0, 0, 0, 0x80, 0x3F, 0, 0, 0, 0x40, 0x84, 0xE5]"

definition frame_bad_crc :: bytes where
  "frame_bad_crc = [0xBB, 0xC2, 8, 0, 0, 0, 0x80, 0x3F, 0, 0, 0, 0x40, 0x84, 0xE4]"

definition frame_bad_len :: bytes where
  "frame_bad_len = [0xBB, 0xC2, 10, 0, 0, 0, 0x80, 0x3F, 0, 0, 0, 0x40, 0x84, 0xE5]"

text \<open>
  The same two floats after a wrong marker and a wrong command byte, with the checksum
  \<open>(0x06, 0x6A)\<close> that matches these bytes; and a response that carries one float only,
  with its matching checksum \<open>(0x40, 0x7D)\<close>.
\<close>

definition frame_wrong_marker :: bytes where
  "frame_wrong_marker = [0xAA, 0x55, 8, 0, 0, 0, 0x80, 0x3F, 0, 0, 0, 0x40, 0x06, 0x6A]"

definition frame_one_float :: bytes where
  "frame_one_float = [0xBB, 0xC2, 4, 0, 0, 0, 0x80, 0x3F, 0x40, 0x7D]"

text \<open>
  Detection states of one range: as \<^verbatim>\<open>__init__\<close> and \<^verbatim>\<open>add_range\<close> create it, after a
  first quiet cycle at -90 dBm, and with its alert raised.
\<close>

definition fresh_range :: range_state where
  "fresh_range = \<lparr>ema_value = None, stability = 0, alert_high = False\<rparr>"

definition warm_range :: range_state where
  "warm_range = \<lparr>ema_value = Some (-90), stability = 0, alert_high = False\<rparr>"

definition alarmed_range :: range_state where
  "alarmed_range = \<lparr>ema_value = Some (-90), stability = 3, alert_high = True\<rparr>"

text \<open>
  Answers of the device to the calibration queries of one range: two spectra and
  nothing after them; and one spectrum followed by an empty one.
\<close>

definition two_answers :: "nat \<Rightarrow> nat \<Rightarrow> query_result" where
  "two_answers i k =
     (if k = 0 then Spectrum [-100, -9507 / 100] else if k = 1 then Spectrum [-90] else NoSpectrum)"

definition empty_answer :: "nat \<Rightarrow> nat \<Rightarrow> query_result" where
  "empty_answer i k =
     (if k = 0 then Spectrum [-90] else if k = 1 then Spectrum [] else NoSpectrum)"

text \<open>A worker in the middle of a frame, and two passes of its loop.\<close>

definition worker_mid_frame :: worker where
  "worker_mid_frame =
     \<lparr>w_running = True, w_buffer = [0xBB, 0xC2, 8], w_emitted = [], w_reconnects = 0,
      w_ports_closed = False\<rparr>"

definition pass_read_fails :: iteration where
  "pass_read_fails =
     \<lparr>it_running = True, it_port_open = True, it_write_error = None,
      it_read = ReadRaises SerialException\<rparr>"

definition pass_port_closed :: iteration where
  "pass_port_closed =
     \<lparr>it_running = True, it_port_open = False, it_write_error = None, it_read = ReadData []\<rparr>"

definition pass_read_frame :: iteration where
  "pass_read_frame =
     \<lparr>it_running = True, it_port_open = True, it_write_error = None, it_read = ReadData frame_ok\<rparr>"

section \<open>Properties of the checksum and the encoder\<close>

lemma fletcher_loop_bound:
  "ck_a < 256 \<Longrightarrow> ck_b < 256 \<Longrightarrow>
   fst (fletcher_loop ck_a ck_b xs) < 256 \<and> snd (fletcher_loop ck_a ck_b xs) < 256"
  by (induction xs arbitrary: ck_a ck_b) (auto simp: Let_def)



lemma fletcher_checksum_bound:
  "fletcher_checksum data = (a, b) \<Longrightarrow> a < 256 \<and> b < 256"
  using fletcher_loop_bound [of 0 0 data] by (simp add: fletcher_checksum_def)

lemma crc_or_eq:
  fixes a b :: nat
  assumes "a < 256"
  shows "push_bit 8 b OR a = a + 256 * b"
proof -
  have "\<not> bit (push_bit 8 b) n \<or> \<not> bit a n" for n
  proof (cases "n < 8")
    case True
    then show ?thesis by (simp add: bit_push_bit_iff)
  next
    case False
    then have "(2::nat) ^ 8 \<le> 2 ^ n" by (intro power_increasing) simp_all
    with assms have "a < 2 ^ n" by simp
    then have "a div 2 ^ n = 0" by simp
    then have "\<not> bit a n" by (simp add: bit_iff_odd)
    then show ?thesis by simp
  qed
  then have "push_bit 8 b + a = push_bit 8 b OR a"
    by (rule disjunctive_add)
  then show ?thesis by (simp add: push_bit_eq_mult)
qed






text \<open>The encoder of ex2\_Test.py with its default arguments writes the same bytes.\<close>

lemma get_spectrum_float_defaults:
  "get_spectrum_float_command start_freq stop_freq 2 3 0 = get_spectrum start_freq stop_freq"
  by (simp add: get_spectrum_float_command_def get_spectrum_def)

section \<open>The arduino frame parser never raises\<close>

text \<open>
  C9. For every byte buffer, \<^verbatim>\<open>parse_response\<close> of arduino\_spectr.py returns: either the
  failure value \<^verbatim>\<open>(None, None)\<close> (\<open>Inl f\<close>, with \<open>f\<close> the message logged) or a pair of
  decoded arrays. No input makes it raise; what the body of the \<^verbatim>\<open>try\<close> raises (the
  \<^verbatim>\<open>struct.error\<close> of a payload whose length is not a multiple of four) ends in the
  handler.
\<close>

theorem parse_response_total:
  "(\<exists>f. parse_response buffer = Returns (Inl f)) \<or>
   (\<exists>mags freqs. parse_response buffer = Returns (Inr (mags, freqs)))"
proof (cases "parse_response_try buffer")
  case (Raises e)
  then show ?thesis by (simp add: parse_response_def)
next
  case (Returns r)
  then show ?thesis by (cases r) (auto simp: parse_response_def)
qed

section \<open>The query of \<^verbatim>\<open>get_spectrum\<close>: layout and checksum round trip\<close>





section \<open>Properties of the reassembly loop\<close>

lemma reassemble_no_marker: "0xBB \<notin> set buffer \<Longrightarrow> reassemble buffer = Returns (buffer, [])"
  by (simp add: reassemble.simps)

lemma slice_append_left: "j \<le> length xs \<Longrightarrow> slice i j (xs @ ys) = slice i j xs"
  by (simp add: slice_def)

lemma reassemble_candidate:
  assumes m: "p \<noteq> []" "hd p = 0xBB"
    and n: "unpack_H (slice 2 4 p) = Returns n"
    and len: "length p = 6 + n"
  shows "reassemble (p @ rest) =
           (case parse_response p of
              Raises e \<Rightarrow> Raises e
            | Returns (Inl f) \<Rightarrow> reassemble rest
            | Returns (Inr sp) \<Rightarrow> emit sp (reassemble rest))"
proof -
  from m obtain q where p: "p = 0xBB # q" by (cases p) auto
  have 1: "0xBB \<in> set (p @ rest)" by (simp add: p)
  have 2: "dropWhile (\<lambda>b. b \<noteq> 0xBB) (p @ rest) = p @ rest" by (simp add: p)
  have 3: "slice 2 4 (p @ rest) = slice 2 4 p" using len by (simp add: slice_append_left)
  have 4: "take (6 + n) (p @ rest) = p" "drop (6 + n) (p @ rest) = rest" using len by simp_all
  have 5: "\<not> length (p @ rest) < 4" "\<not> length (p @ rest) < 6 + n" using len by simp_all
  show ?thesis
    apply (subst reassemble.simps)
    apply (simp only: 1 2 3 4 5 n Let_def not_not if_True if_False outcome.case)
    apply simp
    done
qed


lemma unpack_H_slice: "4 \<le> length b \<Longrightarrow> \<exists>n. unpack_H (slice 2 4 b) = Returns n"
proof -
  assume "4 \<le> length b"
  then obtain x0 x1 x2 x3 r where "b = x0 # x1 # x2 # x3 # r"
    by (cases b; cases "tl b"; cases "tl (tl b)"; cases "tl (tl (tl b))") auto
  then show ?thesis by (simp add: slice_def)
qed

lemma parse_response_returns: "\<exists>r. parse_response b = Returns r"
  by (cases "parse_response_try b") (simp_all add: parse_response_def)

lemma reassemble_unfold:
  assumes "0xBB \<in> set buffer"
    and "buffer1 = dropWhile (\<lambda>b. b \<noteq> 0xBB) buffer"
    and "\<not> length buffer1 < 4"
    and "unpack_H (slice 2 4 buffer1) = Returns n"
    and "\<not> length buffer1 < 6 + n"
  shows "reassemble buffer =
           (case parse_response (take (6 + n) buffer1) of
              Raises e \<Rightarrow> Raises e
            | Returns (Inl f) \<Rightarrow> reassemble (drop (6 + n) buffer1)
            | Returns (Inr sp) \<Rightarrow> emit sp (reassemble (drop (6 + n) buffer1)))"
  using assms(1,3-5) unfolding assms(2) by (subst reassemble.simps) (simp add: Let_def)

lemma reassemble_short:
  assumes "0xBB \<in> set buffer"
    and "buffer1 = dropWhile (\<lambda>b. b \<noteq> 0xBB) buffer"
    and "length buffer1 < 4 \<or> (\<exists>n. unpack_H (slice 2 4 buffer1) = Returns n \<and> length buffer1 < 6 + n)"
  shows "reassemble buffer = Returns (buffer1, [])"
proof (cases "length buffer1 < 4")
  case True
  then show ?thesis using assms by (subst reassemble.simps) simp
next
  case False
  with assms(3) obtain n where "unpack_H (slice 2 4 buffer1) = Returns n" "length buffer1 < 6 + n"
    by blast
  then show ?thesis using assms(1,2) False by (subst reassemble.simps) simp
qed

lemma drop_candidate_shorter:
  assumes "buffer1 = dropWhile (\<lambda>b. b \<noteq> 0xBB) buffer" "\<not> length buffer1 < 6 + n"
  shows "length (drop (6 + n) buffer1) < length buffer"
proof -
  have "length buffer1 \<le> length buffer"
    unfolding assms(1) by (rule length_dropWhile_le)
  then show ?thesis using assms(2) by simp
qed

lemma reassemble_returns: "\<exists>rest fs. reassemble b = Returns (rest, fs)"
proof (induction "length b" arbitrary: b rule: less_induct)
  case less
  show ?case
  proof (cases "0xBB \<in> set b")
    case False
    then show ?thesis by (simp add: reassemble.simps)
  next
    case marker: True
    define buffer1 where "buffer1 = dropWhile (\<lambda>x. x \<noteq> 0xBB) b"
    show ?thesis
    proof (cases "length buffer1 < 4 \<or> (\<exists>n. unpack_H (slice 2 4 buffer1) = Returns n \<and> length buffer1 < 6 + n)")
      case True
      with marker buffer1_def have "reassemble b = Returns (buffer1, [])"
        by (rule reassemble_short)
      then show ?thesis by blast
    next
      case False
      then have long: "\<not> length buffer1 < 4" by blast
      then obtain n where n: "unpack_H (slice 2 4 buffer1) = Returns n"
        using unpack_H_slice [of buffer1] by auto
      with False have full: "\<not> length buffer1 < 6 + n" by blast
      have "length (drop (6 + n) buffer1) < length b"
        using buffer1_def full by (rule drop_candidate_shorter)
      then obtain rest fs where rec: "reassemble (drop (6 + n) buffer1) = Returns (rest, fs)"
        using less by blast
      obtain r where r: "parse_response (take (6 + n) buffer1) = Returns r"
        using parse_response_returns by blast
      show ?thesis
        unfolding reassemble_unfold [OF marker buffer1_def long n full] r rec
        by (cases r) (simp_all add: emit_def)
    qed
  qed
qed

lemma reassemble_leaves:
  "reassemble b = Returns (rest, fs) \<Longrightarrow>
     0xBB \<notin> set rest \<or>
     (rest \<noteq> [] \<and> hd rest = 0xBB \<and>
       (length rest < 4 \<or> (\<exists>n. unpack_H (slice 2 4 rest) = Returns n \<and> length rest < 6 + n)))"
proof (induction "length b" arbitrary: b fs rule: less_induct)
  case less
  show ?case
  proof (cases "0xBB \<in> set b")
    case False
    then show ?thesis using less.prems by (simp add: reassemble.simps)
  next
    case marker: True
    define buffer1 where "buffer1 = dropWhile (\<lambda>x. x \<noteq> 0xBB) b"
    have ne: "buffer1 \<noteq> []"
      using marker unfolding buffer1_def by (auto simp: dropWhile_eq_Nil_conv)
    then have "\<not> hd buffer1 \<noteq> 0xBB"
      unfolding buffer1_def by (rule hd_dropWhile)
    with ne have hd1: "buffer1 \<noteq> [] \<and> hd buffer1 = 0xBB" by simp
    show ?thesis
    proof (cases "length buffer1 < 4 \<or> (\<exists>n. unpack_H (slice 2 4 buffer1) = Returns n \<and> length buffer1 < 6 + n)")
      case True
      with marker buffer1_def have "reassemble b = Returns (buffer1, [])"
        by (rule reassemble_short)
      with less.prems have "rest = buffer1" by simp
      then show ?thesis using hd1 True by blast
    next
      case False
      then have long: "\<not> length buffer1 < 4" by blast
      then obtain n where n: "unpack_H (slice 2 4 buffer1) = Returns n"
        using unpack_H_slice [of buffer1] by auto
      with False have full: "\<not> length buffer1 < 6 + n" by blast
      have shorter: "length (drop (6 + n) buffer1) < length b"
        using buffer1_def full by (rule drop_candidate_shorter)
      obtain rest' fs' where rec: "reassemble (drop (6 + n) buffer1) = Returns (rest', fs')"
        using reassemble_returns by blast
      obtain r where r: "parse_response (take (6 + n) buffer1) = Returns r"
        using parse_response_returns by blast
      have "reassemble b = Returns (rest', fs') \<or> (\<exists>sp. reassemble b = Returns (rest', sp # fs'))"
        unfolding reassemble_unfold [OF marker buffer1_def long n full] r rec
        by (cases r) (simp_all add: emit_def)
      with less.prems have "rest = rest'" by auto
      with rec have "reassemble (drop (6 + n) buffer1) = Returns (rest, fs')" by simp
      with shorter show ?thesis by (rule less.hyps)
    qed
  qed
qed




lemma fletcher_loop_Cons:
  "fletcher_loop ck_a ck_b (x # xs) =
     fletcher_loop ((ck_a + unat x) mod 256) ((ck_b + (ck_a + unat x) mod 256) mod 256) xs"
  by (simp add: Let_def)

lemmas parse_defs = parse_response_def parse_response_try_def GET_SPECTRUM_FLOAT_def slice_def
  received_crc_def calculated_crc_def fletcher_checksum_def decode_floats_def unpack_f_def
  fletcher_loop_Cons

lemma parse_frame_ok:
  "parse_response frame_ok = Returns (Inr ([F32 0 0 0x80 0x3F], [DivE6 (F32 0 0 0 0x40)]))"
  by (simp add: frame_ok_def parse_defs del: fletcher_loop.simps(2))

lemma parse_frame_bad_crc: "parse_response frame_bad_crc = Returns (Inl CrcMismatch)"
  by (simp add: frame_bad_crc_def parse_defs del: fletcher_loop.simps(2))

lemma parse_bad_len_candidate:
  "parse_response (frame_bad_len @ [0xBB, 0xC2]) = Returns (Inl CrcMismatch)"
  by (simp add: frame_bad_len_def parse_defs del: fletcher_loop.simps(2))

lemma parse_ok_shape:
  assumes "parse_response b = Returns (Inr sp)"
  shows "6 \<le> length b \<and> b ! 0 = 0xBB \<and> b ! 1 = 0xC2"
proof -
  have "parse_response_try b = Returns (Inr sp)"
    using assms by (cases "parse_response_try b") (simp_all add: parse_response_def)
  then show ?thesis
    by (simp add: parse_response_try_def GET_SPECTRUM_FLOAT_def split: if_splits)
qed

lemma ingest_frame_then_marker:
  "ingest [] (frame_ok @ [0xBB, 0xC2]) =
     Returns ([0xBB, 0xC2], [([F32 0 0 0x80 0x3F], [DivE6 (F32 0 0 0 0x40)])])"
proof -
  have h: "frame_ok \<noteq> []" "hd frame_ok = 0xBB"
    "unpack_H (slice 2 4 frame_ok) = Returns 8" "length frame_ok = 6 + 8"
    by (simp_all add: frame_ok_def slice_def)
  have "reassemble [0xBB, 0xC2] = Returns ([0xBB, 0xC2], [])"
    by (subst reassemble.simps) simp
  then have "reassemble (frame_ok @ [0xBB, 0xC2]) =
      Returns ([0xBB, 0xC2], [([F32 0 0 0x80 0x3F], [DivE6 (F32 0 0 0 0x40)])])"
    using reassemble_candidate [OF h, of "[0xBB, 0xC2]"] by (simp add: parse_frame_ok emit_def)
  then show ?thesis by (simp add: ingest_def frame_ok_def)
qed

section \<open>What the reassembly loop does with a candidate that fails\<close>

text \<open>
  C1, as the code has it. The loop cuts the whole candidate (\<open>6 + payload_len\<close> bytes) off
  the buffer before it calls \<^verbatim>\<open>parse_response\<close>; when the candidate fails, checksum or
  otherwise, the search goes on after the candidate, not one byte after its marker. So
  for a frame whose length field is intact and whose check fails, followed at once by a
  valid frame, \<^verbatim>\<open>ingest\<close> on an empty buffer emits exactly the valid frame and leaves the
  buffer empty.
\<close>

theorem reassemble_drops_whole_candidate:
  assumes "bad \<noteq> []" and "hd bad = 0xBB"
    and "unpack_H (slice 2 4 bad) = Returns n" and "length bad = 6 + n"
    and "parse_response bad = Returns (Inl f)"
    and "unpack_H (slice 2 4 good) = Returns m" and "length good = 6 + m"
    and "parse_response good = Returns (Inr sp)"
  shows "reassemble (bad @ rest) = reassemble rest
       \<and> ingest [] (bad @ good) = Returns ([], [sp])"
proof -
  have skip: "reassemble (bad @ r) = reassemble r" for r
    using reassemble_candidate [OF assms(1-4), of r] by (simp add: assms(5))
  have shape: "6 \<le> length good \<and> good ! 0 = 0xBB \<and> good ! 1 = 0xC2"
    using assms(8) by (rule parse_ok_shape)
  then have g: "good \<noteq> []" "hd good = 0xBB"
    by (cases good; simp)+
  have "reassemble (good @ []) = emit sp (reassemble [])"
    using reassemble_candidate [OF g assms(6,7), of "[]"] by (simp add: assms(8))
  moreover have "reassemble [] = Returns ([], [])"
    by (simp add: reassemble.simps)
  ultimately have "reassemble good = Returns ([], [sp])"
    by (simp add: emit_def)
  then have "reassemble (bad @ good) = Returns ([], [sp])"
    by (simp add: skip)
  moreover have "bad @ good \<noteq> []" using assms(1) by simp
  ultimately have "ingest [] (bad @ good) = Returns ([], [sp])"
    by (simp add: ingest_def)
  with skip show ?thesis by simp
qed

theorem reassemble_drops_whole_candidate_witness:
  "frame_bad_crc \<noteq> [] \<and> hd frame_bad_crc = 0xBB
   \<and> unpack_H (slice 2 4 frame_bad_crc) = Returns 8 \<and> length frame_bad_crc = 6 + 8
   \<and> parse_response frame_bad_crc = Returns (Inl CrcMismatch)
   \<and> unpack_H (slice 2 4 frame_ok) = Returns 8 \<and> length frame_ok = 6 + 8
   \<and> parse_response frame_ok = Returns (Inr ([F32 0 0 0x80 0x3F], [DivE6 (F32 0 0 0 0x40)]))
   \<and> reassemble (frame_bad_crc @ [1, 2, 3]) = reassemble [1, 2, 3]
   \<and> ingest [] (frame_bad_crc @ frame_ok) = Returns ([], [([F32 0 0 0x80 0x3F], [DivE6 (F32 0 0 0 0x40)])])"
proof -
  have h: "frame_bad_crc \<noteq> []" "hd frame_bad_crc = 0xBB"
    "unpack_H (slice 2 4 frame_bad_crc) = Returns 8" "length frame_bad_crc = 6 + 8"
    "unpack_H (slice 2 4 frame_ok) = Returns 8" "length frame_ok = 6 + 8"
    by (simp_all add: frame_bad_crc_def frame_ok_def slice_def)
  note c = reassemble_drops_whole_candidate
    [OF h(1-4) parse_frame_bad_crc h(5,6) parse_frame_ok, of "[1, 2, 3]"]
  show ?thesis using h parse_frame_bad_crc parse_frame_ok c by simp
qed

text \<open>
  C1 as stated fails. In \<open>frame_bad_len @ frame_ok\<close> one bit of the first frame's length
  byte is flipped, so the candidate is 16 bytes long and takes the first two bytes of the
  valid frame with it. Its checksum fails, the loop drops all 16 bytes (not the marker
  byte alone), no marker is left, and the valid frame that starts at offset 14 is never
  emitted.
\<close>

theorem marker_only_advance_counterexample:
  "parse_response (take 16 (frame_bad_len @ frame_ok)) = Returns (Inl CrcMismatch)
   \<and> drop 14 (frame_bad_len @ frame_ok) = frame_ok
   \<and> parse_response frame_ok = Returns (Inr ([F32 0 0 0x80 0x3F], [DivE6 (F32 0 0 0 0x40)]))
   \<and> ingest [] (frame_bad_len @ frame_ok) = Returns (drop 16 (frame_bad_len @ frame_ok), [])
   \<and> drop 16 (frame_bad_len @ frame_ok) \<noteq> drop 1 (frame_bad_len @ frame_ok)"
proof -
  have split: "frame_bad_len @ frame_ok = (frame_bad_len @ [0xBB, 0xC2]) @ drop 2 frame_ok"
    by (simp add: frame_ok_def)
  have t: "take 16 (frame_bad_len @ frame_ok) = frame_bad_len @ [0xBB, 0xC2]"
    by (simp add: frame_bad_len_def frame_ok_def)
  have d: "drop 16 (frame_bad_len @ frame_ok) = drop 2 frame_ok"
    by (simp add: frame_bad_len_def frame_ok_def)
  have h: "frame_bad_len @ [0xBB, 0xC2] \<noteq> []" "hd (frame_bad_len @ [0xBB, 0xC2]) = 0xBB"
    "unpack_H (slice 2 4 (frame_bad_len @ [0xBB, 0xC2])) = Returns 10"
    "length (frame_bad_len @ [0xBB, 0xC2]) = 6 + 10"
    by (simp_all add: frame_bad_len_def slice_def)
  have "reassemble (frame_bad_len @ frame_ok) = reassemble (drop 2 frame_ok)"
    unfolding split using reassemble_candidate [OF h, of "drop 2 frame_ok"]
    by (simp add: parse_bad_len_candidate)
  moreover have "reassemble (drop 2 frame_ok) = Returns (drop 2 frame_ok, [])"
    by (rule reassemble_no_marker) (simp add: frame_ok_def)
  ultimately have "ingest [] (frame_bad_len @ frame_ok) = Returns (drop 2 frame_ok, [])"
    by (simp add: ingest_def frame_ok_def)
  moreover have "drop 14 (frame_bad_len @ frame_ok) = frame_ok"
    by (simp add: frame_bad_len_def)
  moreover have "drop 2 frame_ok \<noteq> drop 1 (frame_bad_len @ frame_ok)"
    by (simp add: frame_bad_len_def frame_ok_def)
  ultimately show ?thesis
    unfolding t d using parse_bad_len_candidate parse_frame_ok by simp
qed


section \<open>What the reassembly loop leaves in the buffer\<close>

text \<open>
  C6, as the code has it. When the accumulated buffer holds no marker \<open>0xBB\<close>, \<^verbatim>\<open>ingest\<close>
  leaves all of it in place and emits nothing. \<^verbatim>\<open>ingest\<close> always returns. After a read
  that brought data, the buffer either holds no marker (bytes that nothing bounds) or
  starts at a marker and holds one incomplete candidate: fewer than 4 bytes, or fewer
  than \<open>6 + payload_len\<close>.
\<close>

theorem ingest_keeps_markerless_buffer:
  "(0xBB \<notin> set (buffer @ data) \<longrightarrow> ingest buffer data = Returns (buffer @ data, []))
   \<and> (\<exists>rest fs. ingest buffer data = Returns (rest, fs))
   \<and> (data \<noteq> [] \<and> ingest buffer data = Returns (rest, fs) \<longrightarrow>
        0xBB \<notin> set rest \<or>
        (rest \<noteq> [] \<and> hd rest = 0xBB \<and>
          (length rest < 4 \<or> (\<exists>n. unpack_H (slice 2 4 rest) = Returns n \<and> length rest < 6 + n))))"
proof (intro conjI impI)
  assume "0xBB \<notin> set (buffer @ data)"
  then have "reassemble (buffer @ data) = Returns (buffer @ data, [])"
    by (rule reassemble_no_marker)
  then show "ingest buffer data = Returns (buffer @ data, [])"
    by (simp add: ingest_def)
next
  show "\<exists>rest fs. ingest buffer data = Returns (rest, fs)"
    using reassemble_returns [of "buffer @ data"] by (simp add: ingest_def)
next
  assume "data \<noteq> [] \<and> ingest buffer data = Returns (rest, fs)"
  then have "reassemble (buffer @ data) = Returns (rest, fs)"
    by (auto simp: ingest_def)
  then show "0xBB \<notin> set rest \<or>
        (rest \<noteq> [] \<and> hd rest = 0xBB \<and>
          (length rest < 4 \<or> (\<exists>n. unpack_H (slice 2 4 rest) = Returns n \<and> length rest < 6 + n)))"
    by (rule reassemble_leaves)
qed

theorem ingest_keeps_markerless_buffer_witness:
  "0xBB \<notin> set ([0, 1] @ [2, 3 :: byte])
   \<and> ingest [0, 1] [2, 3] = Returns ([0, 1, 2, 3], [])
   \<and> frame_ok @ [0xBB, 0xC2] \<noteq> []
   \<and> ingest [] (frame_ok @ [0xBB, 0xC2]) =
        Returns ([0xBB, 0xC2], [([F32 0 0 0x80 0x3F], [DivE6 (F32 0 0 0 0x40)])])
   \<and> hd [0xBB, 0xC2 :: byte] = 0xBB \<and> length [0xBB, 0xC2 :: byte] < 4"
  using ingest_keeps_markerless_buffer [of "[0, 1]" "[2, 3]"]
    ingest_keeps_markerless_buffer [of "[]" "frame_ok @ [0xBB, 0xC2]" "[0xBB, 0xC2]"
      "[([F32 0 0 0x80 0x3F], [DivE6 (F32 0 0 0 0x40)])]"]
    ingest_frame_then_marker
  by simp

text \<open>
  C6 as stated fails: two bytes without a marker stay in the buffer after the call, and
  the next read without a marker is appended to them.
\<close>

theorem buffer_not_cleared_counterexample:
  "0xBB \<notin> set [0, 1 :: byte]
   \<and> ingest [] [0, 1] = Returns ([0, 1], [])
   \<and> ingest [0, 1] [2] = Returns ([0, 1, 2], [])"
  by (simp add: ingest_def reassemble_no_marker)

section \<open>The two frame parsers compared\<close>

text \<open>
  What \<^verbatim>\<open>parse_response\<close> of arduino\_spectr.py checks, in the order of its branches, and
  what its float decoder returns for an even and for an odd number of floats.
\<close>

lemma length_floats_of: "length data = 4 * n \<Longrightarrow> length (floats_of data) = n"
proof (induction data arbitrary: n rule: floats_of.induct)
  case (1 a b c d rest)
  then obtain k where "n = Suc k" by (cases n) auto
  with 1 show ?case by simp
qed auto

lemma decode_floats_even:
  assumes "length data = 4 * (2 * m)"
  shows "decode_floats data =
           Returns (Inr (take m (floats_of data), map DivE6 (drop m (floats_of data))))"
    and "length (take m (floats_of data)) = m"
    and "length (map DivE6 (drop m (floats_of data))) = m"
proof -
  have n: "length data div 4 = 2 * m" using assms by simp
  have l: "length (floats_of data) = 2 * m" using assms by (rule length_floats_of)
  show "decode_floats data =
           Returns (Inr (take m (floats_of data), map DivE6 (drop m (floats_of data))))"
    using assms by (simp add: decode_floats_def n unpack_f_def)
  show "length (take m (floats_of data)) = m" by (simp add: l)
  show "length (map DivE6 (drop m (floats_of data))) = m" by (simp add: l)
qed

lemma decode_floats_odd:
  assumes "length data = 4 * (2 * m + 1)"
  shows "decode_floats data = Returns (Inl IncorrectNumberOfFloats)"
proof -
  have "length data div 4 = 2 * m + 1" using assms by simp
  then show ?thesis by (simp add: decode_floats_def)
qed

lemma slice_two: "i + 2 \<le> length b \<Longrightarrow> slice i (i + 2) b = [b ! i, b ! (i + 1)]"
proof -
  assume a: "i + 2 \<le> length b"
  then have "drop i b = b ! i # drop (Suc i) b" and "drop (Suc i) b = b ! Suc i # drop (Suc (Suc i)) b"
    by (simp_all add: Cons_nth_drop_Suc)
  then show ?thesis by (simp add: slice_def)
qed


lemma unpack_H_at: "i + 2 \<le> length b \<Longrightarrow>
  unpack_H (slice i (i + 2) b) = Returns (unat (b ! i) + 256 * unat (b ! (i + 1)))"
  by (simp only: slice_two unpack_H.simps)

lemma calculated_crc_eq:
  "calculated_crc b n = fst (fletcher_checksum (take (4 + n) b)) + 256 * snd (fletcher_checksum (take (4 + n) b))"
proof -
  obtain a c where ck: "fletcher_checksum (take (4 + n) b) = (a, c)"
    by (cases "fletcher_checksum (take (4 + n) b)")
  then have "a < 256" using fletcher_checksum_bound by blast
  then show ?thesis by (simp add: calculated_crc_def ck crc_or_eq)
qed

text \<open>
  The only exception the body of the \<^verbatim>\<open>try\<close> raises is the \<^verbatim>\<open>struct.error\<close> of the float
  unpack, for a payload whose length is not a multiple of four; the two \<^verbatim>\<open>'<H'\<close> unpacks
  are guarded by the length tests before them.
\<close>

lemma decode_floats_raises: "decode_floats data = Raises e \<Longrightarrow> e = StructError \<and> length data mod 4 \<noteq> 0"
proof -
  assume a: "decode_floats data = Raises e"
  then have "e = StructError" and "length data \<noteq> 4 * (length data div 4)"
    by (auto simp: decode_floats_def unpack_f_def Let_def split: if_splits)
  moreover from this have "length data mod 4 \<noteq> 0" by presburger
  ultimately show ?thesis by simp
qed

lemma parse_response_try_raises:
  assumes "parse_response_try b = Raises e"
  shows "e = StructError \<and> (unat (b ! 2) + 256 * unat (b ! 3)) mod 4 \<noteq> 0"
proof -
  define pl where "pl = unat (b ! 2) + 256 * unat (b ! 3)"
  have len: "6 \<le> length b"
    using assms by (auto simp: parse_response_try_def split: if_splits)
  have pl: "unpack_H (slice 2 4 b) = Returns pl"
    using unpack_H_at [of 2 b] len by (simp add: pl_def)
  have full: "6 + pl \<le> length b"
    using assms len by (auto simp: parse_response_try_def pl split: if_splits)
  have rc: "received_crc b pl = Returns (unat (b ! (4 + pl)) + 256 * unat (b ! (5 + pl)))"
    using unpack_H_at [of "4 + pl" b] full by (simp add: received_crc_def add.commute)
  have "decode_floats (slice 4 (4 + pl) b) = Raises e"
    using assms len full by (auto simp: parse_response_try_def pl rc split: if_splits)
  then have "e = StructError \<and> length (slice 4 (4 + pl) b) mod 4 \<noteq> 0"
    by (rule decode_floats_raises)
  moreover have "length (slice 4 (4 + pl) b) = pl"
    using full by (simp add: slice_def)
  ultimately show ?thesis by (simp add: pl_def)
qed

lemma parse_response_checks:
  fixes b :: bytes
  defines "pl \<equiv> unat (b ! 2) + 256 * unat (b ! 3)"
  defines "ck \<equiv> fletcher_checksum (take (4 + pl) b)"
  assumes len: "6 \<le> length b"
  shows "b ! 0 \<noteq> 0xBB \<Longrightarrow> parse_response b = Returns (Inl InvalidStartByte)"
    and "b ! 0 = 0xBB \<Longrightarrow> b ! 1 \<noteq> 0xC2 \<Longrightarrow> parse_response b = Returns (Inl IncorrectCommandCode)"
    and "b ! 0 = 0xBB \<Longrightarrow> b ! 1 = 0xC2 \<Longrightarrow> length b < 6 + pl \<Longrightarrow>
           parse_response b = Returns (Inl IncompletePacket)"
    and "b ! 0 = 0xBB \<Longrightarrow> b ! 1 = 0xC2 \<Longrightarrow> 6 + pl \<le> length b \<Longrightarrow>
           unat (b ! (4 + pl)) + 256 * unat (b ! (5 + pl)) \<noteq> fst ck + 256 * snd ck \<Longrightarrow>
           parse_response b = Returns (Inl CrcMismatch)"
    and "parse_response b = Returns (Inr sp) \<Longrightarrow>
           b ! 0 = 0xBB \<and> b ! 1 = 0xC2 \<and> 6 + pl \<le> length b \<and>
           unat (b ! (4 + pl)) + 256 * unat (b ! (5 + pl)) = fst ck + 256 * snd ck"
proof -
  have pl: "unpack_H (slice 2 4 b) = Returns pl"
    using unpack_H_at [of 2 b] len by (simp add: pl_def)
  have rc: "6 + pl \<le> length b \<Longrightarrow>
      received_crc b pl = Returns (unat (b ! (4 + pl)) + 256 * unat (b ! (5 + pl)))"
    using unpack_H_at [of "4 + pl" b] by (simp add: received_crc_def add.commute)
  have cc: "calculated_crc b pl = fst ck + 256 * snd ck"
    unfolding ck_def by (rule calculated_crc_eq)
  have nl: "\<not> length b < 6" using len by simp
  show "b ! 0 \<noteq> 0xBB \<Longrightarrow> parse_response b = Returns (Inl InvalidStartByte)"
    using nl by (simp add: parse_response_def parse_response_try_def)
  show "b ! 0 = 0xBB \<Longrightarrow> b ! 1 \<noteq> 0xC2 \<Longrightarrow> parse_response b = Returns (Inl IncorrectCommandCode)"
    using nl by (simp add: parse_response_def parse_response_try_def GET_SPECTRUM_FLOAT_def)
  show "b ! 0 = 0xBB \<Longrightarrow> b ! 1 = 0xC2 \<Longrightarrow> length b < 6 + pl \<Longrightarrow>
           parse_response b = Returns (Inl IncompletePacket)"
    using nl by (simp add: parse_response_def parse_response_try_def GET_SPECTRUM_FLOAT_def pl)
  show "b ! 0 = 0xBB \<Longrightarrow> b ! 1 = 0xC2 \<Longrightarrow> 6 + pl \<le> length b \<Longrightarrow>
           unat (b ! (4 + pl)) + 256 * unat (b ! (5 + pl)) \<noteq> fst ck + 256 * snd ck \<Longrightarrow>
           parse_response b = Returns (Inl CrcMismatch)"
    using nl by (simp add: parse_response_def parse_response_try_def GET_SPECTRUM_FLOAT_def pl rc cc)
  show "b ! 0 = 0xBB \<and> b ! 1 = 0xC2 \<and> 6 + pl \<le> length b \<and>
           unat (b ! (4 + pl)) + 256 * unat (b ! (5 + pl)) = fst ck + 256 * snd ck"
    if ok: "parse_response b = Returns (Inr sp)"
  proof -
    have t: "parse_response_try b = Returns (Inr sp)"
      using ok by (cases "parse_response_try b") (simp_all add: parse_response_def)
    then have m: "b ! 0 = 0xBB" "b ! 1 = 0xC2" and full: "6 + pl \<le> length b"
      by (simp_all add: parse_response_try_def GET_SPECTRUM_FLOAT_def pl split: if_splits)
    with t nl have "unat (b ! (4 + pl)) + 256 * unat (b ! (5 + pl)) = fst ck + 256 * snd ck"
      by (simp add: parse_response_try_def GET_SPECTRUM_FLOAT_def pl rc cc split: if_splits)
    with m full show ?thesis by simp
  qed
qed

lemmas ex2_defs = parse_response_ex2_def parse_response_ex2_try_def slice_def
  fletcher_checksum_def unpack_f_def fletcher_loop_Cons

text \<open>
  C3. The claim holds for \<^verbatim>\<open>parse_response\<close> of arduino\_spectr.py (\<open>parse_response_checks\<close>
  above). \<^verbatim>\<open>parse_response\<close> of ex2\_Test.py never looks at the first two bytes of the
  header: a frame that starts with \<open>0xAA 0x55\<close> and carries a matching checksum is decoded
  and returned, where the other variant answers with the invalid start byte.
\<close>

theorem ex2_accepts_wrong_marker:
  "parse_response_ex2 (Pending frame_wrong_marker) =
     Returns (Some ([F32 0 0 0x80 0x3F], [DivE6 (F32 0 0 0 0x40)]), Pending [])
   \<and> parse_response frame_wrong_marker = Returns (Inl InvalidStartByte)"
  by (simp add: frame_wrong_marker_def ex2_defs parse_response_def parse_response_try_def
      del: fletcher_loop.simps(2))

text \<open>
  C4. The claim holds for the decoder of arduino\_spectr.py (\<open>decode_floats_even\<close>,
  \<open>decode_floats_odd\<close> above). \<^verbatim>\<open>parse_response\<close> of ex2\_Test.py has no test of the float
  count: for a checksum-valid payload of one float it returns no amplitude and one
  frequency, where the other variant rejects the same bytes.
\<close>

theorem ex2_accepts_odd_float_count:
  "parse_response_ex2 (Pending frame_one_float) =
     Returns (Some ([], [DivE6 (F32 0 0 0x80 0x3F)]), Pending [])
   \<and> parse_response frame_one_float = Returns (Inl IncorrectNumberOfFloats)"
  by (simp add: frame_one_float_def ex2_defs parse_defs del: fletcher_loop.simps(2))

section \<open>A read error ends the session\<close>

text \<open>
  C7. The worker holds three bytes of a frame and \<^verbatim>\<open>self.ser.read\<close> raises
  \<^verbatim>\<open>SerialException\<close> with no stop requested: the loop is left through
  \<^verbatim>\<open>except Exception\<close>, the buffer is cleared, both ports are closed, \<^verbatim>\<open>running\<close> is
  cleared, and the pass that would have delivered a frame never runs. When instead the
  port is found closed at the top of the loop, the worker reconnects and keeps running,
  and the partial buffer is kept.
\<close>

theorem read_error_ends_session:
  "run_loop worker_mid_frame [pass_read_fails, pass_read_frame] =
     (worker_mid_frame\<lparr>w_buffer := [], w_running := False, w_ports_closed := True\<rparr>,
      Some (Crashed SerialException))
   \<and> run_loop worker_mid_frame [pass_port_closed] =
     (worker_mid_frame\<lparr>w_reconnects := 1\<rparr>, None)
   \<and> w_buffer (fst (run_loop worker_mid_frame [pass_port_closed])) = [0xBB, 0xC2, 8]"
  by (simp add: worker_mid_frame_def pass_read_fails_def pass_port_closed_def
      on_exception_def ingest_def)

section \<open>The range registry keeps its lists in lockstep\<close>

lemma length_del_at: "i < length xs \<Longrightarrow> length (del_at i xs) = length xs - 1"
  by (simp add: del_at_def)

lemma lockstep_initial: "lockstep initial_registry"
  by (simp add: lockstep_def initial_registry_def)

lemma lockstep_add_range: "lockstep reg \<Longrightarrow> lockstep (add_range reg a b t)"
  by (auto simp: lockstep_def add_range_def split: option.splits)

lemma lockstep_edit_range: "lockstep reg \<Longrightarrow> lockstep (fst (edit_range reg sel a b t))"
  by (auto simp: lockstep_def edit_range_def Let_def split: option.splits)

lemma delete_range_cases:
  assumes "lockstep reg"
  shows "delete_range reg sel = (reg, None) \<or> delete_range reg sel = (reg, Some IndexError) \<or>
         (hd sel < length (scan_ranges reg) \<and>
          delete_range reg sel =
            (reg\<lparr>scan_ranges := del_at (hd sel) (scan_ranges reg),
                 alert_flags := del_at (hd sel) (alert_flags reg),
                 ema_values := del_at (hd sel) (ema_values reg),
                 stability_counter := del_at (hd sel) (stability_counter reg)\<rparr>, None))"
  using assms by (auto simp: lockstep_def delete_range_def Let_def)

lemma lockstep_delete_range:
  assumes "lockstep reg"
  shows "lockstep (fst (delete_range reg sel))"
  using delete_range_cases [OF assms, of sel] assms
  by (auto simp: lockstep_def length_del_at)

text \<open>
  C10. \<^verbatim>\<open>add_range\<close>, \<^verbatim>\<open>edit_range\<close> and \<^verbatim>\<open>delete_range\<close> of ex2\_Test.py keep the four
  lists \<^verbatim>\<open>scan_ranges\<close>, \<^verbatim>\<open>alert_flags\<close>, \<^verbatim>\<open>ema_values\<close> and \<^verbatim>\<open>stability_counter\<close> at one
  length, whatever the dialogs answer and whatever is selected, also when the call ends
  in an \<^verbatim>\<open>IndexError\<close>. The lists of \<^verbatim>\<open>__init__\<close> have one length (\<open>lockstep_initial\<close>).
\<close>

theorem registry_lockstep:
  assumes "lockstep reg"
  shows "lockstep (add_range reg start_freq stop_freq threshold)
       \<and> lockstep (fst (edit_range reg selected start_freq stop_freq threshold))
       \<and> lockstep (fst (delete_range reg selected))"
  using assms lockstep_add_range lockstep_edit_range lockstep_delete_range by blast

theorem registry_lockstep_witness:
  "lockstep initial_registry
   \<and> lockstep (add_range initial_registry (Some 800) (Some 900) (Some (-95)))
   \<and> lockstep (fst (edit_range initial_registry [0] (Some 800) (Some 900) (Some (-95))))
   \<and> lockstep (fst (delete_range initial_registry [0]))
   \<and> scan_ranges (add_range initial_registry (Some 800) (Some 900) (Some (-95))) =
        [(400000000, 500000000, None), (800000000, 900000000, Some (-95))]
   \<and> delete_range initial_registry [0] =
        (\<lparr>scan_ranges = [], alert_flags = [], ema_values = [], stability_counter = []\<rparr>, None)"
proof -
  note c = registry_lockstep [OF lockstep_initial, of "Some 800" "Some 900" "Some (-95)" "[0]"]
  have a: "scan_ranges (add_range initial_registry (Some 800) (Some 900) (Some (-95))) =
        [(400000000, 500000000, None), (800000000, 900000000, Some (-95))]"
    by (simp add: add_range_def initial_registry_def py_int_def)
  have d: "delete_range initial_registry [0] =
        (\<lparr>scan_ranges = [], alert_flags = [], ema_values = [], stability_counter = []\<rparr>, None)"
    by (simp add: delete_range_def initial_registry_def del_at_def)
  from c lockstep_initial a d show ?thesis by blast
qed

section \<open>Hysteresis and dwell gating of the alert\<close>

lemma range_cycle_branch:
  assumes "range_cycle s (Some v) = (s', b, fired)"
  shows "(b = Exceeded \<longleftrightarrow> v > update_ema (ema_value s) v + 1)"
    and "(b = Dropped \<longleftrightarrow> v \<le> update_ema (ema_value s) v + 1 - hysteresis_threshold)"
    and "b \<noteq> NoData"
  using assms
  by (auto simp: range_cycle_def Let_def hysteresis_threshold_def split: if_splits)

lemma range_cycle_Exceeded:
  assumes "range_cycle s q = (s', Exceeded, fired)"
  shows "stability s' = stability s + 1"
    and "fired \<longleftrightarrow> stability_duration \<le> stability s + 1 \<and> \<not> alert_high s"
    and "alert_high s' \<longleftrightarrow> alert_high s \<or> stability_duration \<le> stability s + 1"
  using assms
  by (auto simp: range_cycle_def Let_def split: option.splits if_splits)

lemma range_cycle_Dropped:
  assumes "range_cycle s q = (s', Dropped, fired)"
  shows "\<not> fired \<and> \<not> alert_high s' \<and> stability s' = 0"
  using assms
  by (auto simp: range_cycle_def Let_def split: option.splits if_splits)

lemma range_cycle_other:
  assumes "range_cycle s q = (s', b, fired)" and "b = Held \<or> b = NoData"
  shows "\<not> fired \<and> alert_high s' = alert_high s \<and> stability s' = stability s"
  using assms
  by (auto simp: range_cycle_def Let_def split: option.splits if_splits)

text \<open>The display update writes the moving average only.\<close>

lemma display_update_keeps:
  "stability (display_update s d) = stability s"
  "alert_high (display_update s d) = alert_high s"
  by (simp_all add: display_update_def split: option.splits)

lemma poll_branch:
  assumes "poll s (d, Some v) = (s', b, fired)"
  shows "(b = Exceeded \<longleftrightarrow> v > update_ema (ema_value (display_update s d)) v + 1)"
    and "(b = Dropped \<longleftrightarrow>
           v \<le> update_ema (ema_value (display_update s d)) v + 1 - hysteresis_threshold)"
  using assms range_cycle_branch [of "display_update s d" v s' b fired]
  by (simp_all add: poll_def)

lemma poll_Exceeded:
  assumes "poll s c = (s', Exceeded, fired)"
  shows "stability s' = stability s + 1"
    and "fired \<longleftrightarrow> stability_duration \<le> stability s + 1 \<and> \<not> alert_high s"
    and "alert_high s' \<longleftrightarrow> alert_high s \<or> stability_duration \<le> stability s + 1"
  using assms range_cycle_Exceeded [of "display_update s (fst c)" "snd c" s' fired]
  by (simp_all add: poll_def display_update_keeps)

lemma poll_Dropped:
  assumes "poll s c = (s', Dropped, fired)"
  shows "\<not> fired \<and> \<not> alert_high s' \<and> stability s' = 0"
  using assms range_cycle_Dropped [of "display_update s (fst c)" "snd c" s' fired]
  by (simp add: poll_def)

lemma poll_other:
  assumes "poll s c = (s', b, fired)" and "b = Held \<or> b = NoData"
  shows "\<not> fired \<and> alert_high s' = alert_high s \<and> stability s' = stability s"
  using assms range_cycle_other [of "display_update s (fst c)" "snd c" s' b fired]
  by (simp add: poll_def display_update_keeps)

lemma alerts_Cons: "alerts ((b, f) # tr) = (if f then 1 else 0) + alerts tr"
  by (simp add: alerts_def)

lemma count_branch_Cons:
  "count_branch b ((b', f) # tr) = (if b' = b then 1 else 0) + count_branch b tr"
  by (simp add: count_branch_def)

lemma few_crossings_no_alert:
  "stability s + count_branch Exceeded (cycles s cs) < stability_duration \<Longrightarrow>
   alerts (cycles s cs) = 0"
proof (induction cs arbitrary: s)
  case Nil
  then show ?case by (simp add: alerts_def)
next
  case (Cons c cs)
  obtain s' b f where rc: "poll s c = (s', b, f)"
    by (cases "poll s c") auto
  have "stability s' + count_branch Exceeded (cycles s' cs) < stability_duration \<and> \<not> f"
  proof (cases b)
    case Exceeded
    with rc Cons.prems show ?thesis
      using poll_Exceeded [of s c s' f] by (auto simp: count_branch_Cons)
  next
    case Dropped
    with rc Cons.prems show ?thesis
      using poll_Dropped [of s c s' f] by (auto simp: count_branch_Cons)
  next
    case Held
    with rc Cons.prems show ?thesis
      using poll_other [of s c s' b f] by (auto simp: count_branch_Cons)
  next
    case NoData
    with rc Cons.prems show ?thesis
      using poll_other [of s c s' b f] by (auto simp: count_branch_Cons)
  qed
  then show ?case using Cons.IH [of s'] by (simp add: rc alerts_Cons)
qed

lemma active_no_alert:
  "alert_high s \<Longrightarrow> \<forall>x \<in> set (cycles s cs). fst x \<noteq> Dropped \<Longrightarrow>
   alerts (cycles s cs) = 0 \<and> alert_high (final_state s cs)"
proof (induction cs arbitrary: s)
  case Nil
  then show ?case by (simp add: alerts_def)
next
  case (Cons c cs)
  obtain s' b f where rc: "poll s c = (s', b, f)"
    by (cases "poll s c") auto
  with Cons.prems have nd: "b \<noteq> Dropped" and rest: "\<forall>x \<in> set (cycles s' cs). fst x \<noteq> Dropped"
    by simp_all
  have "\<not> f \<and> alert_high s'"
  proof (cases b)
    case Exceeded
    then show ?thesis using rc poll_Exceeded [of s c s' f] Cons.prems(1) by auto
  next
    case Dropped
    with nd show ?thesis by simp
  next
    case Held
    then show ?thesis using rc poll_other [of s c s' b f] Cons.prems(1) by auto
  next
    case NoData
    then show ?thesis using rc poll_other [of s c s' b f] Cons.prems(1) by auto
  qed
  then show ?case using Cons.IH [OF _ rest] by (simp add: rc alerts_Cons)
qed

lemma sustained_crossing_one_alert:
  "\<not> alert_high s \<Longrightarrow> cs \<noteq> [] \<Longrightarrow> stability_duration \<le> stability s + length cs \<Longrightarrow>
   \<forall>x \<in> set (cycles s cs). fst x = Exceeded \<Longrightarrow>
   alerts (cycles s cs) = 1 \<and> alert_high (final_state s cs)"
proof (induction cs arbitrary: s)
  case Nil
  then show ?case by simp
next
  case (Cons c cs)
  obtain s' b f where rc: "poll s c = (s', b, f)"
    by (cases "poll s c") auto
  with Cons.prems have b: "b = Exceeded" and rest: "\<forall>x \<in> set (cycles s' cs). fst x = Exceeded"
    by simp_all
  note e = poll_Exceeded [OF rc [unfolded b]]
  show ?case
  proof (cases "stability_duration \<le> stability s + 1")
    case True
    then have "f" and "alert_high s'" using e Cons.prems(1) by simp_all
    moreover have "\<forall>x \<in> set (cycles s' cs). fst x \<noteq> Dropped" using rest by simp
    ultimately show ?thesis
      using active_no_alert [of s' cs] by (simp add: rc alerts_Cons)
  next
    case False
    then have nf: "\<not> f" and na: "\<not> alert_high s'" using e Cons.prems(1) by simp_all
    have more: "stability_duration \<le> stability s' + length cs"
      using Cons.prems(3) e(1) by simp
    with False e(1) have ne: "cs \<noteq> []" by auto
    from na ne more rest have "alerts (cycles s' cs) = 1 \<and> alert_high (final_state s' cs)"
      by (rule Cons.IH)
    then show ?thesis using nf by (simp add: rc alerts_Cons)
  qed
qed

lemmas cycle_defs = poll_def display_update_def range_cycle_def update_ema_def ema_alpha_def
  hysteresis_threshold_def stability_duration_def Let_def

lemma trace_fresh:
  "cycles fresh_range [(Some (-85), Some (-90)), (Some (-84), Some (-80)), (Some (-86), Some (-80))] =
     [(Dropped, False), (Exceeded, False), (Exceeded, False)]"
  by (simp add: fresh_range_def cycle_defs)

lemma trace_warm:
  "cycles warm_range [(Some (-85), Some (-80)), (Some (-85), Some (-80)), (Some (-85), Some (-80))] =
     [(Exceeded, False), (Exceeded, False), (Exceeded, True)]"
  by (simp add: warm_range_def cycle_defs)

lemma trace_alarmed:
  "cycles alarmed_range [(Some (-85), Some (-80)), (None, None)] =
     [(Exceeded, False), (NoData, False)]"
  by (simp add: alarmed_range_def cycle_defs)

lemma poll_fresh:
  "poll fresh_range (Some (-85), Some (-90)) =
     (\<lparr>ema_value = Some (-171 / 2), stability = 0, alert_high = False\<rparr>, Dropped, False)"
  by (simp add: fresh_range_def cycle_defs)

text \<open>
  C2, as the code has it. For one range and any sequence of polling cycles, with
  \<open>Exceeded\<close> the cycles whose working amplitude is above \<open>threshold_high = ema + 1\<close> and
  \<open>Dropped\<close> those at or below \<open>threshold_low = threshold_high - 0.5\<close> (sixth conjunct):
  the counter counts the cycles above the high threshold since it was last cleared,
  consecutive or not, because a cycle between the two thresholds or without a spectrum
  changes neither the counter nor the alert (fifth conjunct). If the counter plus the
  number of cycles above the high threshold stays under \<open>stability_duration = 3\<close>, no
  alert is shown; if the alert is not active and at least three cycles in a row are all
  above the high threshold, exactly one alert is shown and the alert is active
  afterwards; while the alert is active and no cycle reaches the low threshold, no alert
  is shown; a cycle at or below the low threshold shows none, clears the alert and sets
  the counter to 0.
\<close>

theorem hysteresis_alerts:
  "(stability s + count_branch Exceeded (cycles s cs) < stability_duration \<longrightarrow>
      alerts (cycles s cs) = 0)
   \<and> (\<not> alert_high s \<and> stability_duration \<le> length cs \<and>
        (\<forall>x \<in> set (cycles s cs). fst x = Exceeded) \<longrightarrow>
      alerts (cycles s cs) = 1 \<and> alert_high (final_state s cs))
   \<and> (alert_high s \<and> (\<forall>x \<in> set (cycles s cs). fst x \<noteq> Dropped) \<longrightarrow>
      alerts (cycles s cs) = 0 \<and> alert_high (final_state s cs))
   \<and> (poll s c = (s', Dropped, fired) \<longrightarrow>
      \<not> fired \<and> \<not> alert_high s' \<and> stability s' = 0)
   \<and> (poll s c = (s', b, fired) \<and> (b = Held \<or> b = NoData) \<longrightarrow>
      \<not> fired \<and> alert_high s' = alert_high s \<and> stability s' = stability s)
   \<and> (poll s (d, Some v) = (s', b, fired) \<longrightarrow>
      (b = Exceeded \<longleftrightarrow> v > update_ema (ema_value (display_update s d)) v + 1) \<and>
      (b = Dropped \<longleftrightarrow>
         v \<le> update_ema (ema_value (display_update s d)) v + 1 - hysteresis_threshold))"
proof (intro conjI impI)
  assume "stability s + count_branch Exceeded (cycles s cs) < stability_duration"
  then show "alerts (cycles s cs) = 0" by (rule few_crossings_no_alert)
next
  assume a: "\<not> alert_high s \<and> stability_duration \<le> length cs \<and>
        (\<forall>x \<in> set (cycles s cs). fst x = Exceeded)"
  then have "cs \<noteq> []" by (auto simp: stability_duration_def)
  with a have r: "alerts (cycles s cs) = 1 \<and> alert_high (final_state s cs)"
    by (intro sustained_crossing_one_alert) auto
  from r show "alerts (cycles s cs) = 1" ..
  from r show "alert_high (final_state s cs)" ..
next
  assume a: "alert_high s \<and> (\<forall>x \<in> set (cycles s cs). fst x \<noteq> Dropped)"
  then have r: "alerts (cycles s cs) = 0 \<and> alert_high (final_state s cs)"
    by (intro active_no_alert) auto
  from r show "alerts (cycles s cs) = 0" ..
  from r show "alert_high (final_state s cs)" ..
next
  assume a: "poll s c = (s', Dropped, fired)"
  note r = poll_Dropped [OF a]
  from r show "\<not> fired" by simp
  from r show "\<not> alert_high s'" by simp
  from r show "stability s' = 0" by simp
next
  assume a: "poll s c = (s', b, fired) \<and> (b = Held \<or> b = NoData)"
  then have p: "poll s c = (s', b, fired)" and o: "b = Held \<or> b = NoData"
    by simp_all
  note r = poll_other [OF p o]
  from r show "\<not> fired" by simp
  from r show "alert_high s' = alert_high s" by simp
  from r show "stability s' = stability s" by simp
next
  assume a: "poll s (d, Some v) = (s', b, fired)"
  show "(b = Exceeded) = (update_ema (ema_value (display_update s d)) v + 1 < v)"
    using poll_branch(1) [OF a] .
  show "(b = Dropped) =
      (v \<le> update_ema (ema_value (display_update s d)) v + 1 - hysteresis_threshold)"
    using poll_branch(2) [OF a] .
qed

theorem hysteresis_alerts_witness:
  "cycles fresh_range [(Some (-85), Some (-90)), (Some (-84), Some (-80)), (Some (-86), Some (-80))] =
     [(Dropped, False), (Exceeded, False), (Exceeded, False)]
   \<and> stability fresh_range + count_branch Exceeded
        (cycles fresh_range [(Some (-85), Some (-90)), (Some (-84), Some (-80)), (Some (-86), Some (-80))])
       < stability_duration
   \<and> alerts (cycles fresh_range
        [(Some (-85), Some (-90)), (Some (-84), Some (-80)), (Some (-86), Some (-80))]) = 0
   \<and> \<not> alert_high warm_range
   \<and> stability_duration \<le>
        length [(Some (-85 :: real), Some (-80 :: real)), (Some (-85), Some (-80)), (Some (-85), Some (-80))]
   \<and> cycles warm_range [(Some (-85), Some (-80)), (Some (-85), Some (-80)), (Some (-85), Some (-80))] =
     [(Exceeded, False), (Exceeded, False), (Exceeded, True)]
   \<and> alerts (cycles warm_range
        [(Some (-85), Some (-80)), (Some (-85), Some (-80)), (Some (-85), Some (-80))]) = 1
   \<and> alert_high (final_state warm_range
        [(Some (-85), Some (-80)), (Some (-85), Some (-80)), (Some (-85), Some (-80))])
   \<and> alert_high alarmed_range
   \<and> cycles alarmed_range [(Some (-85), Some (-80)), (None, None)] =
     [(Exceeded, False), (NoData, False)]
   \<and> alerts (cycles alarmed_range [(Some (-85), Some (-80)), (None, None)]) = 0
   \<and> alert_high (final_state alarmed_range [(Some (-85), Some (-80)), (None, None)])
   \<and> poll fresh_range (Some (-85), Some (-90)) =
     (\<lparr>ema_value = Some (-171 / 2), stability = 0, alert_high = False\<rparr>, Dropped, False)
   \<and> - 90 \<le> update_ema (ema_value (display_update fresh_range (Some (-85)))) (- 90) + 1
               - hysteresis_threshold
   \<and> poll alarmed_range (None, None) = (alarmed_range, NoData, False)"
proof -
  let ?f = "[(Some (-85), Some (-90)), (Some (-84), Some (-80)), (Some (-86), Some (-80 :: real))]"
  let ?w = "[(Some (-85 :: real), Some (-80 :: real)), (Some (-85), Some (-80)), (Some (-85), Some (-80))]"
  let ?a = "[(Some (-85 :: real), Some (-80 :: real)), (None, None)]"
  have h1: "stability fresh_range + count_branch Exceeded (cycles fresh_range ?f) < stability_duration"
    unfolding trace_fresh by (simp add: fresh_range_def count_branch_def stability_duration_def)
  have h2: "\<not> alert_high warm_range \<and> stability_duration \<le> length ?w
       \<and> (\<forall>x \<in> set (cycles warm_range ?w). fst x = Exceeded)"
    unfolding trace_warm by (simp add: warm_range_def stability_duration_def)
  have h3: "alert_high alarmed_range \<and> (\<forall>x \<in> set (cycles alarmed_range ?a). fst x \<noteq> Dropped)"
    unfolding trace_alarmed by (simp add: alarmed_range_def)
  have h5: "poll alarmed_range (None, None) = (alarmed_range, NoData, False)"
    by (simp add: cycle_defs)
  note t1 = hysteresis_alerts [of fresh_range ?f "(Some (-85), Some (-90))"
      "\<lparr>ema_value = Some (-171 / 2), stability = 0, alert_high = False\<rparr>" False
      Dropped "Some (-85)" "-90"]
  note t2 = hysteresis_alerts [of warm_range ?w]
  note t3 = hysteresis_alerts [of alarmed_range ?a "(None, None)" alarmed_range False NoData]
  from t1 h1 have c1: "alerts (cycles fresh_range ?f) = 0"
    by blast
  from t1 poll_fresh
  have c5: "- 90 \<le> update_ema (ema_value (display_update fresh_range (Some (-85)))) (- 90) + 1
               - hysteresis_threshold"
    by blast
  from t2 h2 have c2: "alerts (cycles warm_range ?w) = 1 \<and> alert_high (final_state warm_range ?w)"
    by blast
  from t3 h3 have c3: "alerts (cycles alarmed_range ?a) = 0 \<and> alert_high (final_state alarmed_range ?a)"
    by blast
  from trace_fresh h1 c1 h2 trace_warm c2 h3 trace_alarmed c3 poll_fresh c5 h5
  show ?thesis by blast
qed

text \<open>
  C2 as stated fails. Starting from a range that is not in alert, the working amplitude
  is above the high threshold in three cycles that are never consecutive: each crossing
  lasts one cycle and is followed by a cycle between the two thresholds (first trace) or
  by a failed query (second trace). The counter is not cleared in between, and the third
  crossing shows the alert.
\<close>

theorem short_crossings_fire_counterexample:
  "cycles warm_range
     [(None, Some (-80)), (None, Some (-88)), (None, Some (-80)), (None, Some (-87)), (None, Some (-80))] =
     [(Exceeded, False), (Held, False), (Exceeded, False), (Held, False), (Exceeded, True)]
   \<and> cycles warm_range
     [(None, Some (-80)), (None, None), (None, Some (-80)), (None, None), (None, Some (-80))] =
     [(Exceeded, False), (NoData, False), (Exceeded, False), (NoData, False), (Exceeded, True)]
   \<and> \<not> alert_high warm_range \<and> stability warm_range = 0"
  by (simp add: warm_range_def cycle_defs)

section \<open>Calibration\<close>

text \<open>
  When every query returns (no exception) and every spectrum it returns has at least one
  amplitude, both calibrations return, keep the number of ranges and their bounds, and
  set the threshold of each range that had a spectrum: \<^verbatim>\<open>auto_calibrate_thresholds\<close> to
  the median of the per-query maxima plus 1, \<^verbatim>\<open>calibration_process\<close> in each pass to
  their maximum plus 1, both rounded to one decimal; a range with no spectrum keeps its
  threshold. Without a port \<^verbatim>\<open>auto_calibrate_thresholds\<close> logs and changes nothing.
\<close>

lemma collect_max_ok:
  "\<forall>r \<in> set rs. usable r \<Longrightarrow> collect_max rs = Returns (List.map_filter query_max rs)"
proof (induction rs rule: collect_max.induct)
  case 1
  then show ?case by (simp add: List.map_filter_simps)
next
  case (2 rs)
  then show ?case by (simp add: List.map_filter_simps query_max_def)
next
  case (3 e rs)
  then show ?case by (simp add: usable_def)
next
  case (4 mags rs)
  then show ?case by (simp add: List.map_filter_simps query_max_def usable_def)
qed

lemma calibrate_range_ok:
  assumes "\<forall>r \<in> set results. usable r"
  shows "calibrate_range reducer results (start, stop, old) =
           Returns (if List.map_filter query_max results = [] then (start, stop, old)
                    else (start, stop, Some (py_round1 (reducer (List.map_filter query_max results) + 1))))"
  by (simp add: calibrate_range_def collect_max_ok [OF assms])

lemma calibrate_from_ok:
  assumes "\<forall>j < length rs. \<forall>k < n. usable (q (i + j) k)"
  shows "\<exists>rs'. calibrate_from reducer n q i rs = Returns rs' \<and> length rs' = length rs \<and>
           (\<forall>j < length rs. calibrate_range reducer (map (q (i + j)) [0..<n]) (rs ! j) = Returns (rs' ! j))"
  using assms
proof (induction rs arbitrary: i)
  case Nil
  then show ?case by simp
next
  case (Cons r rs)
  have u0: "\<forall>x \<in> set (map (q i) [0..<n]). usable x"
    using Cons.prems by force
  obtain start stop old where r: "r = (start, stop, old)" by (cases r) auto
  obtain r' where r': "calibrate_range reducer (map (q i) [0..<n]) r = Returns r'"
    unfolding r using calibrate_range_ok [OF u0] by blast
  have "\<forall>j < length rs. \<forall>k < n. usable (q (Suc i + j) k)"
    using Cons.prems by force
  then obtain rs' where rs': "calibrate_from reducer n q (Suc i) rs = Returns rs'"
      "length rs' = length rs"
      "\<forall>j < length rs. calibrate_range reducer (map (q (Suc i + j)) [0..<n]) (rs ! j) = Returns (rs' ! j)"
    using Cons.IH [of "Suc i"] by blast
  have "calibrate_from reducer n q i (r # rs) = Returns (r' # rs')"
    by (simp add: r' rs'(1))
  moreover have "\<forall>j < length (r # rs).
      calibrate_range reducer (map (q (i + j)) [0..<n]) ((r # rs) ! j) = Returns ((r' # rs') ! j)"
  proof (intro allI impI)
    fix j assume "j < length (r # rs)"
    then show "calibrate_range reducer (map (q (i + j)) [0..<n]) ((r # rs) ! j) = Returns ((r' # rs') ! j)"
      using r' rs'(3) by (cases j) auto
  qed
  ultimately show ?case using rs'(2) by simp
qed

lemma calibrate_from_result:
  assumes "\<forall>j < length rs. \<forall>k < n. usable (q j k)"
  shows "\<exists>rs'. calibrate_from reducer n q 0 rs = Returns rs' \<and> length rs' = length rs \<and>
           (\<forall>j < length rs. rs' ! j =
              (case rs ! j of (start, stop, old) \<Rightarrow>
                 if List.map_filter query_max (map (q j) [0..<n]) = [] then (start, stop, old)
                 else (start, stop,
                       Some (py_round1 (reducer (List.map_filter query_max (map (q j) [0..<n])) + 1)))))"
proof -
  from assms have "\<forall>j < length rs. \<forall>k < n. usable (q (0 + j) k)" by simp
  then obtain rs' where rs': "calibrate_from reducer n q 0 rs = Returns rs'" "length rs' = length rs"
     "\<forall>j < length rs. calibrate_range reducer (map (q (0 + j)) [0..<n]) (rs ! j) = Returns (rs' ! j)"
    using calibrate_from_ok [of rs n q 0 reducer] by blast
  have "rs' ! j =
              (case rs ! j of (start, stop, old) \<Rightarrow>
                 if List.map_filter query_max (map (q j) [0..<n]) = [] then (start, stop, old)
                 else (start, stop,
                       Some (py_round1 (reducer (List.map_filter query_max (map (q j) [0..<n])) + 1))))"
    if j: "j < length rs" for j
  proof -
    obtain start stop old where r: "rs ! j = (start, stop, old)" by (cases "rs ! j") auto
    have u: "\<forall>x \<in> set (map (q j) [0..<n]). usable x" using assms j by force
    from rs'(3) j have "calibrate_range reducer (map (q j) [0..<n]) (rs ! j) = Returns (rs' ! j)"
      by simp
    then show ?thesis unfolding r calibrate_range_ok [OF u] by simp
  qed
  with rs'(1,2) show ?thesis by blast
qed

lemma calibration_thresholds:
  "((\<forall>i < length ranges. \<forall>k < 500. usable (q i k)) \<longrightarrow>
      (\<exists>rs. auto_calibrate_thresholds True q ranges = Returns (rs, []) \<and> length rs = length ranges \<and>
         (\<forall>i < length ranges. rs ! i =
            (case ranges ! i of (start, stop, old) \<Rightarrow>
               if List.map_filter query_max (map (q i) [0..<500]) = [] then (start, stop, old)
               else (start, stop,
                     Some (py_round1 (np_median (List.map_filter query_max (map (q i) [0..<500])) + 1)))))))
   \<and> ((\<forall>i < length ranges. \<forall>k < 10. usable (q i k)) \<longrightarrow>
      (\<exists>rs. calibration_pass True q ranges = Returns rs \<and> length rs = length ranges \<and>
         (\<forall>i < length ranges. rs ! i =
            (case ranges ! i of (start, stop, old) \<Rightarrow>
               if List.map_filter query_max (map (q i) [0..<10]) = [] then (start, stop, old)
               else (start, stop,
                     Some (py_round1 (py_max (List.map_filter query_max (map (q i) [0..<10])) + 1)))))))
   \<and> auto_calibrate_thresholds False q ranges = Returns (ranges, [CalibrationImpossible])"
proof (intro conjI impI)
  assume "\<forall>i < length ranges. \<forall>k < 500. usable (q i k)"
  then show "\<exists>rs. auto_calibrate_thresholds True q ranges = Returns (rs, []) \<and> length rs = length ranges \<and>
         (\<forall>i < length ranges. rs ! i =
            (case ranges ! i of (start, stop, old) \<Rightarrow>
               if List.map_filter query_max (map (q i) [0..<500]) = [] then (start, stop, old)
               else (start, stop,
                     Some (py_round1 (np_median (List.map_filter query_max (map (q i) [0..<500])) + 1)))))"
    using calibrate_from_result [of ranges 500 q np_median]
    by (auto simp: auto_calibrate_thresholds_def)
next
  assume "\<forall>i < length ranges. \<forall>k < 10. usable (q i k)"
  then show "\<exists>rs. calibration_pass True q ranges = Returns rs \<and> length rs = length ranges \<and>
         (\<forall>i < length ranges. rs ! i =
            (case ranges ! i of (start, stop, old) \<Rightarrow>
               if List.map_filter query_max (map (q i) [0..<10]) = [] then (start, stop, old)
               else (start, stop,
                     Some (py_round1 (py_max (List.map_filter query_max (map (q i) [0..<10])) + 1)))))"
    using calibrate_from_result [of ranges 10 q py_max]
    by (simp add: calibration_pass_def)
next
  show "auto_calibrate_thresholds False q ranges = Returns (ranges, [CalibrationImpossible])"
    by (simp add: auto_calibrate_thresholds_def)
qed


lemma amps500: "List.map_filter query_max (map (two_answers 0) [0..<500]) = [-9507 / 100, -90]"
  by (simp add: two_answers_def query_max_def List.map_filter_simps upt_rec [of _ "numeral _"])


lemma amps10: "List.map_filter query_max (map (two_answers 0) [0..<10]) = [-9507 / 100, -90]"
  by (simp add: two_answers_def query_max_def List.map_filter_simps upt_rec [of _ "numeral _"])

lemma two_answers_usable: "usable (two_answers i k)"
  by (simp add: two_answers_def usable_def)

lemma median_two: "py_round1 (np_median [-9507 / 100, -90] + 1) = -183 / 2"
  by (simp add: np_median_def py_round1_def rint_def Let_def)

lemma max_two: "py_round1 (py_max [-9507 / 100, -90] + 1) = -89"
  by (simp add: py_max_def py_round1_def rint_def Let_def)

lemma singleton_list: "length rs = 1 \<Longrightarrow> rs ! 0 = x \<Longrightarrow> rs = [x]"
  by (cases rs) auto

lemma calibration_thresholds_example:
  "auto_calibrate_thresholds True two_answers [(400000000, 500000000, None)] =
     Returns ([(400000000, 500000000, Some (-183 / 2))], [])
   \<and> calibration_pass True two_answers [(400000000, 500000000, None)] =
     Returns [(400000000, 500000000, Some (-89))]
   \<and> auto_calibrate_thresholds False two_answers [(400000000, 500000000, None)] =
     Returns ([(400000000, 500000000, None)], [CalibrationImpossible])"
proof -
  note t = calibration_thresholds [of "[(400000000, 500000000, None)]" two_answers]
  have h: "\<forall>i < length [(400000000 :: int, 500000000 :: int, None :: real option)].
             \<forall>k < n. usable (two_answers i k)" for n
    by (simp add: two_answers_usable)
  from t h [of 500] obtain rs where rs:
    "auto_calibrate_thresholds True two_answers [(400000000, 500000000, None)] = Returns (rs, [])"
    "length rs = length [(400000000 :: int, 500000000 :: int, None :: real option)]"
    "\<forall>i < length [(400000000 :: int, 500000000 :: int, None :: real option)]. rs ! i =
            (case [(400000000, 500000000, None)] ! i of (start, stop, old) \<Rightarrow>
               if List.map_filter query_max (map (two_answers i) [0..<500]) = [] then (start, stop, old)
               else (start, stop,
                     Some (py_round1 (np_median (List.map_filter query_max (map (two_answers i) [0..<500])) + 1))))"
    by blast
  from rs(3) have "rs ! 0 = (400000000, 500000000,
      Some (py_round1 (np_median (List.map_filter query_max (map (two_answers 0) [0..<500])) + 1)))"
    by (simp add: amps500)
  then have rs0: "rs ! 0 = (400000000, 500000000, Some (-183 / 2))"
    unfolding amps500 median_two .
  from rs(2) have rsl: "length rs = 1" by simp
  from t h [of 10] obtain ps where ps:
    "calibration_pass True two_answers [(400000000, 500000000, None)] = Returns ps"
    "length ps = length [(400000000 :: int, 500000000 :: int, None :: real option)]"
    "\<forall>i < length [(400000000 :: int, 500000000 :: int, None :: real option)]. ps ! i =
            (case [(400000000, 500000000, None)] ! i of (start, stop, old) \<Rightarrow>
               if List.map_filter query_max (map (two_answers i) [0..<10]) = [] then (start, stop, old)
               else (start, stop,
                     Some (py_round1 (py_max (List.map_filter query_max (map (two_answers i) [0..<10])) + 1))))"
    by blast
  from ps(3) have "ps ! 0 = (400000000, 500000000,
      Some (py_round1 (py_max (List.map_filter query_max (map (two_answers 0) [0..<10])) + 1)))"
    by (simp add: amps10)
  then have ps0: "ps ! 0 = (400000000, 500000000, Some (-89))"
    unfolding amps10 max_two .
  from ps(2) have psl: "length ps = 1" by simp
  from t have f: "auto_calibrate_thresholds False two_answers [(400000000, 500000000, None)] =
     Returns ([(400000000, 500000000, None)], [CalibrationImpossible])"
    by blast
  from rs(1) ps(1) f singleton_list [OF rsl rs0] singleton_list [OF psl ps0]
  show ?thesis by simp
qed

lemma calibration_pass_without_port:
  "calibration_pass False q (r # rs) = Raises AttributeError"
  by (cases r) (simp add: calibration_pass_def calibrate_range_def upt_rec [of 0 10])


lemma upt_two: "2 \<le> n \<Longrightarrow> [0..<n] = 0 # 1 # [2..<n]"
proof -
  assume "2 \<le> n"
  then have "[0..<n] = 0 # [1..<n]" and "[1..<n] = 1 # [2..<n]"
    by (simp_all add: upt_conv_Cons numeral_2_eq_2)
  then show ?thesis by simp
qed

lemma collect_empty_answer: "collect_max (map (empty_answer 0) [0..<500]) = Raises ValueError"
  by (simp add: upt_two [of 500] empty_answer_def del: upt_Suc)

text \<open>
  C8. The thresholds are computed as the claim says (\<open>calibration_thresholds\<close> above), and
  \<^verbatim>\<open>auto_calibrate_thresholds\<close> without a port logs the failure and leaves the thresholds
  unset. \<^verbatim>\<open>calibration_process\<close> has no such test: without a port its first query raises
  \<^verbatim>\<open>AttributeError\<close>, which nothing handles and nothing logs. Both calibrations also
  raise (\<^verbatim>\<open>ValueError\<close> from \<^verbatim>\<open>mags.max()\<close>) when one query returns an empty spectrum,
  although another query of the range succeeded.
\<close>

theorem calibration_raises:
  "calibration_pass False two_answers [(400000000, 500000000, None)] = Raises AttributeError
   \<and> calibration_process False [two_answers] [(400000000, 500000000, None)] = Raises AttributeError
   \<and> auto_calibrate_thresholds False two_answers [(400000000, 500000000, None)] =
       Returns ([(400000000, 500000000, None)], [CalibrationImpossible])
   \<and> auto_calibrate_thresholds True empty_answer [(400000000, 500000000, None)] = Raises ValueError"
  by (simp add: calibration_pass_without_port auto_calibrate_thresholds_def
      calibrate_range_def collect_empty_answer)

end
